theory Spec2Isabelle
  imports Complex_Main "HOL-Library.Word"
begin

unbundle bit_operations_syntax

section \<open>Data model of \<open>backend/main.py\<close>\<close>

text \<open>
  The service keeps three module-level containers in memory
  (\<open>student_frame_counts\<close>, \<open>known_face_encodings\<close>, \<open>known_face_metadata\<close>) and two
  database tables (\<open>students\<close>, \<open>attendance\<close>). An endpoint is a function from the state
  to an outcome and the state it leaves behind; a Python exception is an \<open>Inl\<close> outcome,
  and the state returned with it is the one the exception leaves (module-level
  containers keep the mutations made before the raise).

  A float64 vector is kept as the list of its 64-bit element patterns, so that
  \<open>tobytes\<close> and \<open>np.frombuffer\<close> are exact. A float64 scalar (a distance) is a
  real number or NaN; floating-point arithmetic itself (the norm, \<open>round\<close>) is not
  computed in the model but taken from the external functions. An infinite distance
  is not a value of its own: in \<open>np.argmin\<close> and in the comparison with the tolerance
  it behaves as a number at or above the tolerance does.
\<close>

type_synonym byte = "8 word"
type_synonym encoding = "64 word list"
type_synonym box = "int \<times> int \<times> int \<times> int"

datatype float64 = NaN | Num real

datatype error =
    ValueError
  | IndexError
  | KeyError
  | IntegrityError
  | HTTPException nat string
  | CvError

text \<open>Rows of the two tables. The columns \<open>id\<close> (autoincrement key) and \<open>timestamp\<close>
  (default \<open>datetime.now\<close>) are filled in by the database; no endpoint reads them.\<close>

record Student =
  student_id :: string
  student_name :: string
  encoding_binary :: "byte list"

record Registration =
  reg_student_id :: string
  reg_student_name :: string

text \<open>An element of \<open>known_face_metadata\<close>: the dict \<open>{"name": ..., "id": ...}\<close>.\<close>

record metadata =
  md_name :: string
  md_id :: string

text \<open>An element of \<open>detected_students\<close>.\<close>

record detected =
  name :: string
  distance :: "float64 option"
  bounding_box :: box

datatype response =
    Error string
  | Message string
  | Detected "detected list"

record state =
  students :: "Student list"
  attendance :: "Registration list"
  student_frame_counts :: "string \<rightharpoonup> int"
  known_face_encodings :: "encoding list"
  known_face_metadata :: "metadata list"

text \<open>
  The third-party functions the endpoints call (OpenCV, face\_recognition, numpy) are
  parameters of the model: \<open>imdecode\<close> is the decoder on a non-empty buffer and yields
  \<open>None\<close> for bytes that are no image; \<open>face_encodings\<close> takes the optional list of
  known face locations; \<open>norm_diff\<close> is the norm of the difference of one known
  encoding and a face encoding, as \<open>np.linalg.norm\<close> computes it for one row;
  \<open>py_round\<close> is \<open>round(d, ndigits)\<close> on a numpy float.
\<close>

record 'img ext =
  imdecode :: "byte list \<Rightarrow> 'img option"
  resize :: "'img \<Rightarrow> 'img"
  cvtColor :: "'img \<Rightarrow> 'img"
  face_locations :: "'img \<Rightarrow> box list"
  face_encodings :: "'img \<Rightarrow> box list option \<Rightarrow> encoding list"
  norm_diff :: "encoding \<Rightarrow> encoding \<Rightarrow> float64"
  py_round :: "float64 \<Rightarrow> int \<Rightarrow> float64"

definition FRAME_THRESHOLD :: int where
  "FRAME_THRESHOLD = 5"

text \<open>The float \<open>0.55\<close> of the source is the float64 nearest to 55/100, a little above
  it. No float64 lies between the two, so a float64 distance is below the one exactly
  when it is below the other.\<close>

definition TOLERANCE :: real where
  "TOLERANCE = 55 / 100"

section \<open>Byte encoding of vectors\<close>

text \<open>\<open>ndarray.tobytes()\<close> of a float64 vector: eight bytes per element, least
  significant first.\<close>

definition word_bytes :: "64 word \<Rightarrow> byte list" where
  "word_bytes w = map (\<lambda>i. ucast (drop_bit (8 * i) w)) [0..<8]"

definition tobytes :: "encoding \<Rightarrow> byte list" where
  "tobytes v = concat (map word_bytes v)"

definition bytes_word :: "byte list \<Rightarrow> 64 word" where
  "bytes_word bs = foldr (\<lambda>b w. ucast b OR push_bit 8 w) bs 0"

fun chunks8 :: "'a list \<Rightarrow> 'a list list" where
  "chunks8 [] = []"
| "chunks8 (x # xs) = take 8 (x # xs) # chunks8 (drop 8 (x # xs))"

text \<open>\<open>np.frombuffer(b, dtype=np.float64)\<close>: raises ValueError when the buffer size is
  not a multiple of the element size, and decodes \<open>len(b) / 8\<close> elements otherwise.\<close>

definition frombuffer :: "byte list \<Rightarrow> error + encoding" where
  "frombuffer bs =
     (if length bs mod 8 \<noteq> 0 then Inl ValueError
      else Inr (map bytes_word (chunks8 bs)))"

section \<open>Database operations\<close>

text \<open>Both tables declare \<open>student_id\<close> unique: adding a row whose \<open>student_id\<close> is
  already there makes \<open>db.commit()\<close> raise.\<close>

definition insert_student :: "Student \<Rightarrow> Student list \<Rightarrow> error + Student list" where
  "insert_student r tbl =
     (if student_id r \<in> set (map student_id tbl) then Inl IntegrityError
      else Inr (tbl @ [r]))"

definition insert_registration ::
  "Registration \<Rightarrow> Registration list \<Rightarrow> error + Registration list" where
  "insert_registration r tbl =
     (if reg_student_id r \<in> set (map reg_student_id tbl) then Inl IntegrityError
      else Inr (tbl @ [r]))"

section \<open>Decoding an upload\<close>

text \<open>\<open>cv2.imdecode(np.frombuffer(contents, np.uint8), cv2.IMREAD_COLOR)\<close>: OpenCV
  raises \<open>cv2.error\<close> on an empty buffer; on any other buffer it returns the image, or
  \<open>None\<close> when the bytes are no image.\<close>

definition cv2_imdecode :: "'img ext \<Rightarrow> byte list \<Rightarrow> error + 'img option" where
  "cv2_imdecode x contents = (if contents = [] then Inl CvError else Inr (imdecode x contents))"

section \<open>Endpoints\<close>

subsection \<open>\<open>add_student\<close> and \<open>delete_student\<close>\<close>

definition add_student ::
  "'img ext \<Rightarrow> string \<Rightarrow> string \<Rightarrow> byte list \<Rightarrow> state \<Rightarrow> (error + response) \<times> state" where
  "add_student x sname sid contents s =
     (case cv2_imdecode x contents of
        Inl e \<Rightarrow> (Inl e, s)
      | Inr None \<Rightarrow> (Inr (Error ''Error. Could not decode the image.''), s)
      | Inr (Some img) \<Rightarrow>
          (case face_encodings x (cvtColor x img) None of
             [] \<Rightarrow> (Inr (Error ''Error. No face found in the image.''), s)
           | enc # _ \<Rightarrow>
               (case insert_student
                       \<lparr>student_id = sid, student_name = sname,
                        encoding_binary = tobytes enc\<rparr> (students s) of
                  Inl e \<Rightarrow> (Inl e, s)
                | Inr tbl \<Rightarrow>
                    (Inr (Message (''Student '' @ sname @ '' (ID: '' @ sid
                                     @ '') uploaded successfully!'')),
                     s\<lparr>students := tbl\<rparr>))))"

definition delete_student :: "string \<Rightarrow> state \<Rightarrow> (error + response) \<times> state" where
  "delete_student sid s =
     (case find (\<lambda>r. student_id r = sid) (students s) of
        None \<Rightarrow> (Inl (HTTPException 404 ''Student not found''), s)
      | Some student \<Rightarrow>
          (Inr (Message (''Student '' @ sid @ '' removed successfully'')),
           s\<lparr>students := remove1 student (students s)\<rparr>))"

subsection \<open>\<open>start_registration\<close>\<close>

text \<open>The loop that moves the student rows into memory. An exception of
  \<open>np.frombuffer\<close> leaves the loop with the rows before it loaded.\<close>

fun load_students :: "Student list \<Rightarrow> state \<Rightarrow> (error + unit) \<times> state" where
  "load_students [] s = (Inr (), s)"
| "load_students (student # rest) s =
     (case frombuffer (encoding_binary student) of
        Inl e \<Rightarrow> (Inl e, s)
      | Inr encoding \<Rightarrow>
          load_students rest
            (s\<lparr>known_face_encodings := known_face_encodings s @ [encoding],
               known_face_metadata := known_face_metadata s
                  @ [\<lparr>md_name = student_name student, md_id = student_id student\<rparr>],
               student_frame_counts := (student_frame_counts s)(student_id student \<mapsto> 0)\<rparr>))"

definition start_registration :: "state \<Rightarrow> (error + response) \<times> state" where
  "start_registration s =
     (let s1 = s\<lparr>student_frame_counts := Map.empty,
                 known_face_encodings := [],
                 known_face_metadata := [],
                 attendance := []\<rparr>
      in case load_students (students s1) s1 of
           (Inl e, s2) \<Rightarrow> (Inl e, s2)
         | (Inr _, s2) \<Rightarrow> (Inr (Message ''Registration started.''), s2))"

subsection \<open>\<open>process_frame\<close>\<close>

text \<open>\<open>face_recognition.face_distance\<close>: an empty array when there is no known
  encoding; otherwise \<open>np.linalg.norm(known - face, axis=1)\<close>. The subtraction turns
  the list of known vectors into a matrix and broadcasts the face vector against its
  rows: numpy raises ValueError when the known vectors differ in length, or when their
  common length and the length of the face vector differ and neither is 1. Otherwise
  there is one norm per known encoding.\<close>

definition face_distance ::
  "'img ext \<Rightarrow> encoding list \<Rightarrow> encoding \<Rightarrow> error + float64 list" where
  "face_distance x known face =
     (case known of
        [] \<Rightarrow> Inr []
      | k # ks \<Rightarrow>
          if (\<forall>k' \<in> set ks. length k' = length k)
             \<and> (length k = length face \<or> length k = 1 \<or> length face = 1)
          then Inr (map (\<lambda>k'. norm_diff x k' face) known)
          else Inl ValueError)"

text \<open>\<open>np.argmin\<close>: a scan that keeps the index of the smallest value seen so far and
  replaces it only by a strictly smaller one; a NaN ends the scan and its index is the
  result. It raises ValueError on an empty sequence.\<close>

fun argmin_scan :: "float64 list \<Rightarrow> nat \<Rightarrow> nat \<Rightarrow> real \<Rightarrow> nat" where
  "argmin_scan [] i best v = best"
| "argmin_scan (NaN # ds) i best v = i"
| "argmin_scan (Num d # ds) i best v =
     (if d < v then argmin_scan ds (Suc i) i d else argmin_scan ds (Suc i) best v)"

definition argmin :: "float64 list \<Rightarrow> error + nat" where
  "argmin ds =
     (case ds of
        [] \<Rightarrow> Inl ValueError
      | NaN # rest \<Rightarrow> Inr 0
      | Num d # rest \<Rightarrow> Inr (argmin_scan rest 1 0 d))"

text \<open>The comparison \<open>d < TOLERANCE\<close> of a float with the tolerance: false for NaN.\<close>

fun below :: "float64 \<Rightarrow> real \<Rightarrow> bool" where
  "below NaN t = False"
| "below (Num d) t = (d < t)"

fun scale_box :: "box \<Rightarrow> box" where
  "scale_box (tp, rt, bt, lf) = (tp * 4, rt * 4, bt * 4, lf * 4)"

text \<open>The \<open>try\<close> block of the loop body: add the record and commit; an exception is
  caught and the session rolled back, which leaves the table as it was.\<close>

definition try_commit :: "string \<Rightarrow> string \<Rightarrow> state \<Rightarrow> state" where
  "try_commit sname sid s =
     (case insert_registration \<lparr>reg_student_id = sid, reg_student_name = sname\<rparr>
             (attendance s) of
        Inl e \<Rightarrow> s
      | Inr tbl \<Rightarrow> s\<lparr>attendance := tbl\<rparr>)"

text \<open>The body of the loop over the detections of one frame: it returns the entry
  appended to \<open>detected_students\<close>, or the exception raised.\<close>

definition loop_body ::
  "'img ext \<Rightarrow> box \<times> encoding \<Rightarrow> state \<Rightarrow> (error + detected) \<times> state" where
  "loop_body x det s =
     (case det of (bx, face_encoding) \<Rightarrow>
        (case face_distance x (known_face_encodings s) face_encoding of
           Inl e \<Rightarrow> (Inl e, s)
         | Inr face_distances \<Rightarrow>
           if length face_distances > 0 then
             (case argmin face_distances of
                Inl e \<Rightarrow> (Inl e, s)
              | Inr best_match_index \<Rightarrow>
                  let current_distance =
                        Some (py_round x (face_distances ! best_match_index) 2)
                  in if below (face_distances ! best_match_index) TOLERANCE then
                       (if best_match_index < length (known_face_metadata s) then
                          let sname = md_name (known_face_metadata s ! best_match_index);
                              sid = md_id (known_face_metadata s ! best_match_index)
                          in (case student_frame_counts s sid of
                                None \<Rightarrow> (Inl KeyError, s)
                              | Some c \<Rightarrow>
                                  let s1 = s\<lparr>student_frame_counts :=
                                               (student_frame_counts s)(sid \<mapsto> c + 1)\<rparr>;
                                      s2 = (if c + 1 = FRAME_THRESHOLD
                                            then try_commit sname sid s1 else s1)
                                  in (Inr \<lparr>name = sname, distance = current_distance,
                                           bounding_box = scale_box bx\<rparr>, s2))
                        else (Inl IndexError, s))
                     else (Inr \<lparr>name = ''Unknown'', distance = current_distance,
                                bounding_box = scale_box bx\<rparr>, s))
           else (Inr \<lparr>name = ''Unknown'', distance = None,
                      bounding_box = scale_box bx\<rparr>, s)))"

fun detect_loop ::
  "'img ext \<Rightarrow> (box \<times> encoding) list \<Rightarrow> detected list \<Rightarrow> state
     \<Rightarrow> (error + detected list) \<times> state" where
  "detect_loop x [] detected_students s = (Inr detected_students, s)"
| "detect_loop x (det # rest) detected_students s =
     (case loop_body x det s of
        (Inl e, s') \<Rightarrow> (Inl e, s')
      | (Inr entry, s') \<Rightarrow> detect_loop x rest (detected_students @ [entry]) s')"

text \<open>The detections of a decoded image: \<open>zip(face_locations, face_encodings)\<close> on the
  downscaled RGB image.\<close>

definition detections :: "'img ext \<Rightarrow> 'img \<Rightarrow> (box \<times> encoding) list" where
  "detections x img =
     (let rgb_small_img = cvtColor x (resize x img);
          locs = face_locations x rgb_small_img
      in zip locs (face_encodings x rgb_small_img (Some locs)))"

definition process_frame ::
  "'img ext \<Rightarrow> byte list \<Rightarrow> state \<Rightarrow> (error + response) \<times> state" where
  "process_frame x contents s =
     (case cv2_imdecode x contents of
        Inl e \<Rightarrow> (Inl e, s)
      | Inr None \<Rightarrow> (Inr (Error ''Error. Could not decode the image.''), s)
      | Inr (Some img) \<Rightarrow>
          (case detect_loop x (detections x img) [] s of
             (Inl e, s') \<Rightarrow> (Inl e, s')
           | (Inr detected_students, s') \<Rightarrow> (Inr (Detected detected_students), s')))"

section \<open>Sessions and reachable states\<close>

text \<open>A session is one \<open>start_registration\<close> followed by \<open>process_frame\<close> calls, each
  running on the state the call before it left. Calls are taken one at a time: the
  endpoints that touch the three containers are coroutines that do not await between
  their first read and their last write of them.\<close>

fun run_frames :: "'img ext \<Rightarrow> byte list list \<Rightarrow> state \<Rightarrow> state" where
  "run_frames x [] s = s"
| "run_frames x (contents # rest) s = run_frames x rest (snd (process_frame x contents s))"

datatype call =
    AddStudent string string "byte list"
  | DeleteStudent string
  | StartRegistration
  | ProcessFrame "byte list"

fun endpoint :: "'img ext \<Rightarrow> call \<Rightarrow> state \<Rightarrow> (error + response) \<times> state" where
  "endpoint x (AddStudent sname sid contents) s = add_student x sname sid contents s"
| "endpoint x (DeleteStudent sid) s = delete_student sid s"
| "endpoint x StartRegistration s = start_registration s"
| "endpoint x (ProcessFrame contents) s = process_frame x contents s"

fun run_calls :: "'img ext \<Rightarrow> call list \<Rightarrow> state \<Rightarrow> state" where
  "run_calls x [] s = s"
| "run_calls x (c # rest) s = run_calls x rest (snd (endpoint x c s))"

text \<open>The state in which the process starts: the three module-level containers are
  empty, the two tables hold what earlier runs left.\<close>

definition initial :: "state \<Rightarrow> bool" where
  "initial s \<longleftrightarrow>
     student_frame_counts s = Map.empty \<and> known_face_encodings s = []
     \<and> known_face_metadata s = []"

text \<open>The attendance records of one identity.\<close>

definition records_of :: "string \<Rightarrow> state \<Rightarrow> Registration list" where
  "records_of sid s = filter (\<lambda>r. reg_student_id r = sid) (attendance s)"

text \<open>The metadata entry a face encoding is matched to: the one at the \<open>argmin\<close> index of
  its distances, when the distances are computed and that distance is below the
  tolerance.\<close>

definition matched :: "'img ext \<Rightarrow> state \<Rightarrow> encoding \<Rightarrow> metadata option" where
  "matched x s face =
     (case face_distance x (known_face_encodings s) face of
        Inl e \<Rightarrow> None
      | Inr ds \<Rightarrow>
          (case argmin ds of
             Inl e \<Rightarrow> None
           | Inr i \<Rightarrow> if below (ds ! i) TOLERANCE \<and> i < length (known_face_metadata s)
                      then Some (known_face_metadata s ! i) else None))"

definition matches :: "'img ext \<Rightarrow> state \<Rightarrow> string \<Rightarrow> box \<times> encoding \<Rightarrow> bool" where
  "matches x s sid det = (map_option md_id (matched x s (snd det)) = Some sid)"

text \<open>The number of detections of a frame that are matched to an identity.\<close>

definition hits :: "'img ext \<Rightarrow> state \<Rightarrow> string \<Rightarrow> byte list \<Rightarrow> nat" where
  "hits x s sid contents =
     (case cv2_imdecode x contents of
        Inr (Some img) \<Rightarrow> length (filter (matches x s sid) (detections x img))
      | _ \<Rightarrow> 0)"

text \<open>The two lookups of the loop body succeed in a state where the metadata list is
  as long as the encodings list and every id in it is a key of the counter map.\<close>

definition lookup_ok :: "state \<Rightarrow> bool" where
  "lookup_ok s \<longleftrightarrow>
     length (known_face_encodings s) = length (known_face_metadata s)
     \<and> (\<forall>m \<in> set (known_face_metadata s). md_id m \<in> dom (student_frame_counts s))"

text \<open>Counters and records agree when an identity has a record exactly if its counter
  has reached the threshold, and then only one.\<close>

definition committed_ok :: "state \<Rightarrow> bool" where
  "committed_ok s \<longleftrightarrow>
     (\<forall>sid. length (records_of sid s) =
        (case student_frame_counts s sid of
           None \<Rightarrow> 0
         | Some c \<Rightarrow> if FRAME_THRESHOLD \<le> c then 1 else 0))"

text \<open>The encoder's contract: every face encoding it returns has the same length
  (128 for the model that face\_recognition ships).\<close>

definition fixed_width :: "'img ext \<Rightarrow> bool" where
  "fixed_width x \<longleftrightarrow>
     (\<exists>w. \<forall>img locs. \<forall>e \<in> set (face_encodings x img locs). length e = w)"

section \<open>A concrete instance\<close>

text \<open>A small instance of the external functions, on which the theorems below are
  exercised: an image is its byte string, a string that starts with the byte 255 does
  not decode, every non-zero byte is a face whose encoding is the one-element vector of
  that byte, two encodings are a tenth of the difference of their element sums apart,
  unless one of them holds the element 255, which stands for a NaN; rounding is to the
  nearest multiple of \<open>10\<^sup>-\<^sup>n\<close>.\<close>

definition elem_sum :: "encoding \<Rightarrow> int" where
  "elem_sum v = sum_list (map uint v)"

definition demo_ext :: "(byte list) ext" where
  "demo_ext =
     \<lparr>imdecode = (\<lambda>bs. case bs of [] \<Rightarrow> None
                                | b # _ \<Rightarrow> if b = 255 then None else Some bs),
      resize = (\<lambda>img. img),
      cvtColor = (\<lambda>img. img),
      face_locations = (\<lambda>img. map (\<lambda>p. (0, 1, 1, 0)) (filter (\<lambda>p. p \<noteq> 0) img)),
      face_encodings = (\<lambda>img locs. map (\<lambda>p. [ucast p]) (filter (\<lambda>p. p \<noteq> 0) img)),
      norm_diff = (\<lambda>k e. if 255 \<in> set k \<union> set e then NaN
                         else Num (\<bar>of_int (elem_sum k - elem_sum e)\<bar> / 10)),
      py_round = (\<lambda>d n. case d of NaN \<Rightarrow> NaN
                         | Num r \<Rightarrow> Num (of_int (round (r * 10 powi n)) / 10 powi n))\<rparr>"

definition demo_students :: "Student list" where
  "demo_students =
     [\<lparr>student_id = ''s1'', student_name = ''Ann'',
       encoding_binary = [10, 0, 0, 0, 0, 0, 0, 0]\<rparr>,
      \<lparr>student_id = ''s2'', student_name = ''Bob'',
       encoding_binary = [30, 0, 0, 0, 0, 0, 0, 0]\<rparr>]"

definition demo_init :: state where
  "demo_init =
     \<lparr>students = demo_students, attendance = [],
      student_frame_counts = Map.empty,
      known_face_encodings = [], known_face_metadata = []\<rparr>"

text \<open>The state of the instance after \<open>start_registration\<close>.\<close>

definition demo_loaded :: state where
  "demo_loaded =
     \<lparr>students = demo_students, attendance = [],
      student_frame_counts = [''s1'' \<mapsto> 0, ''s2'' \<mapsto> 0],
      known_face_encodings = [[10], [30]],
      known_face_metadata = [\<lparr>md_name = ''Ann'', md_id = ''s1''\<rparr>,
                             \<lparr>md_name = ''Bob'', md_id = ''s2''\<rparr>]\<rparr>"

text \<open>A students table whose two blobs have different lengths (8 and 16 bytes), and the
  state \<open>start_registration\<close> leaves from it.\<close>

definition demo_mixed_students :: "Student list" where
  "demo_mixed_students =
     [\<lparr>student_id = ''s1'', student_name = ''Ann'',
       encoding_binary = [10, 0, 0, 0, 0, 0, 0, 0]\<rparr>,
      \<lparr>student_id = ''s2'', student_name = ''Bob'',
       encoding_binary = [30, 0, 0, 0, 0, 0, 0, 0, 31, 0, 0, 0, 0, 0, 0, 0]\<rparr>]"

definition demo_mixed :: state where
  "demo_mixed =
     \<lparr>students = demo_mixed_students, attendance = [],
      student_frame_counts = [''s1'' \<mapsto> 0, ''s2'' \<mapsto> 0],
      known_face_encodings = [[10], [30, 31]],
      known_face_metadata = [\<lparr>md_name = ''Ann'', md_id = ''s1''\<rparr>,
                             \<lparr>md_name = ''Bob'', md_id = ''s2''\<rparr>]\<rparr>"

definition demo_mixed_init :: state where
  "demo_mixed_init = demo_init\<lparr>students := demo_mixed_students\<rparr>"




text \<open>A state in which Ann's counter is one below the threshold and the attendance
  table already holds a record of her.\<close>

definition demo_conflict :: state where
  "demo_conflict =
     demo_loaded\<lparr>student_frame_counts := [''s1'' \<mapsto> 4, ''s2'' \<mapsto> 0],
                 attendance := [\<lparr>reg_student_id = ''s1'', reg_student_name = ''Ann''\<rparr>]\<rparr>"

text \<open>A sequence of calls from the start of the process.\<close>

definition demo_calls :: "call list" where
  "demo_calls =
     [AddStudent ''Cy'' ''s3'' [50], StartRegistration, ProcessFrame [10, 30, 52],
      DeleteStudent ''s1'', ProcessFrame [10]]"

text \<open>The state after six frames of the session that showed Ann's face: her counter
  is past the threshold and her record is in the table.\<close>

definition demo_committed :: state where
  "demo_committed =
     demo_loaded\<lparr>student_frame_counts := [''s1'' \<mapsto> 6, ''s2'' \<mapsto> 0],
                 attendance := [\<lparr>reg_student_id = ''s1'', reg_student_name = ''Ann''\<rparr>]\<rparr>"

text \<open>Seven frames, five of which show a face within the tolerance of Ann's.\<close>

definition demo_frames :: "byte list list" where
  "demo_frames = [[10], [12], [0], [40], [9], [10], [11]]"

text \<open>A students table whose second blob is three bytes long.\<close>

definition demo_bad_init :: state where
  "demo_bad_init =
     demo_committed\<lparr>students :=
       [\<lparr>student_id = ''s1'', student_name = ''Ann'',
         encoding_binary = [10, 0, 0, 0, 0, 0, 0, 0]\<rparr>,
        \<lparr>student_id = ''s4'', student_name = ''Dan'', encoding_binary = [1, 2, 3]\<rparr>,
        \<lparr>student_id = ''s2'', student_name = ''Bob'',
         encoding_binary = [30, 0, 0, 0, 0, 0, 0, 0]\<rparr>]\<rparr>"

section \<open>The nearest-neighbour scan\<close>

text \<open>The scan never leaves the list: started at position \<open>i\<close> with a best index
  before \<open>i\<close>, it ends with an index before \<open>i + length ds\<close>.\<close>

lemma argmin_scan_bound:
  "b < i \<Longrightarrow> argmin_scan ds i b v < i + length ds"
proof (induction ds i b v rule: argmin_scan.induct)
  case (1 i best v)
  then show ?case by simp
next
  case (2 ds i best v)
  then show ?case by simp
next
  case (3 d ds i best v)
  then show ?case by (cases "d < v") (simp_all add: less_Suc_eq)
qed

lemma argmin_range:
  assumes "ds \<noteq> []"
  shows "\<exists>j. argmin ds = Inr j \<and> j < length ds"
proof -
  from assms obtain d rest where ds: "ds = d # rest" by (cases ds) auto
  show ?thesis
  proof (cases d)
    case NaN
    with ds show ?thesis by (simp add: argmin_def)
  next
    case (Num v)
    have "argmin_scan rest 1 0 v < 1 + length rest" by (rule argmin_scan_bound) simp
    with ds Num show ?thesis by (simp add: argmin_def)
  qed
qed

lemma argmin_Nil: "argmin [] = Inl ValueError"
  by (simp add: argmin_def)





section \<open>The distances of a face\<close>

lemma face_distance_length:
  "face_distance x known face = Inr ds \<Longrightarrow> length ds = length known"
  by (auto simp: face_distance_def split: list.splits if_splits)

lemma face_distance_error:
  "face_distance x known face = Inl e \<Longrightarrow> e = ValueError"
  by (auto simp: face_distance_def split: list.splits if_splits)

lemma face_distance_empty [simp]: "face_distance x [] face = Inr []"
  by (simp add: face_distance_def)

text \<open>Whether the distances are computed depends on the face only through its length.\<close>

lemma face_distance_raises_length:
  assumes "face_distance x known face = Inl e" and "length face' = length face"
  shows "face_distance x known face' = Inl e"
  using assms by (auto simp: face_distance_def split: list.splits if_splits)

section \<open>One detection\<close>

lemma try_commit_fields [simp]:
  "students (try_commit n k s) = students s"
  "known_face_encodings (try_commit n k s) = known_face_encodings s"
  "known_face_metadata (try_commit n k s) = known_face_metadata s"
  "student_frame_counts (try_commit n k s) = student_frame_counts s"
  by (simp_all add: try_commit_def split: sum.splits)

text \<open>The table after the \<open>try\<close> block: one more row when the id had none, the same
  table when it had one.\<close>

lemma try_commit_attendance:
  "attendance (try_commit n k s) =
     (if k \<in> set (map reg_student_id (attendance s)) then attendance s
      else attendance s @ [\<lparr>reg_student_id = k, reg_student_name = n\<rparr>])"
  by (simp add: try_commit_def insert_registration_def)

text \<open>What one detection does to the state: nothing, or one counter goes up by one
  and the \<open>try\<close> block runs when the counter becomes the threshold.\<close>

lemma loop_body_state:
  "snd (loop_body x det s) = s \<or>
   (\<exists>k n c. student_frame_counts s k = Some c \<and>
      snd (loop_body x det s) =
        (if c + 1 = FRAME_THRESHOLD
         then try_commit n k (s\<lparr>student_frame_counts := (student_frame_counts s)(k \<mapsto> c + 1)\<rparr>)
         else s\<lparr>student_frame_counts := (student_frame_counts s)(k \<mapsto> c + 1)\<rparr>))"
proof -
  obtain bx face where det: "det = (bx, face)" by (cases det)
  show ?thesis
  proof (cases "face_distance x (known_face_encodings s) face")
    case (Inl e)
    then show ?thesis by (simp add: loop_body_def det)
  next
    case ds: (Inr ds)
    show ?thesis
    proof (cases "argmin ds")
      case (Inl e)
      with ds show ?thesis by (simp add: loop_body_def det Let_def)
    next
      case (Inr j)
      show ?thesis
      proof (cases "student_frame_counts s (md_id (known_face_metadata s ! j))")
        case None
        with ds Inr show ?thesis by (simp add: loop_body_def det Let_def)
      next
        case (Some c)
        with ds Inr show ?thesis
          apply (simp add: loop_body_def det Let_def del: fun_upd_apply)
          apply (intro impI conjI)
           apply (rule disjI2, rule exI[of _ "md_id (known_face_metadata s ! j)"],
                  rule exI[of _ "md_name (known_face_metadata s ! j)"], rule exI[of _ c], simp)+
          done
      qed
    qed
  qed
qed

text \<open>A detection that raises leaves the state as it was.\<close>

lemma loop_body_raise:
  "fst (loop_body x det s) = Inl e \<Longrightarrow> snd (loop_body x det s) = s"
  by (auto simp: loop_body_def Let_def split: prod.splits sum.splits option.splits if_splits)

lemma loop_body_distance_raises:
  "face_distance x (known_face_encodings s) (snd det) = Inl e \<Longrightarrow> loop_body x det s = (Inl e, s)"
  by (cases det) (simp add: loop_body_def)

lemma loop_body_fixed:
  "students (snd (loop_body x det s)) = students s"
  "known_face_encodings (snd (loop_body x det s)) = known_face_encodings s"
  "known_face_metadata (snd (loop_body x det s)) = known_face_metadata s"
  using loop_body_state [of x det s] by auto

lemma loop_body_dom:
  "dom (student_frame_counts (snd (loop_body x det s))) = dom (student_frame_counts s)"
  using loop_body_state [of x det s] by (auto split: if_splits)

lemma loop_body_lookup_ok: "lookup_ok s \<Longrightarrow> lookup_ok (snd (loop_body x det s))"
  by (simp add: lookup_ok_def loop_body_fixed loop_body_dom)

text \<open>In a state where the lookups are safe, the \<open>argmin\<close> index of computed distances
  has a metadata entry and that entry's id has a counter.\<close>

lemma lookup_ok_argmin:
  assumes "lookup_ok s" and "known_face_encodings s \<noteq> []"
    and "face_distance x (known_face_encodings s) face = Inr ds"
  shows "\<exists>j c. argmin ds = Inr j \<and> j < length ds
           \<and> j < length (known_face_metadata s)
           \<and> student_frame_counts s (md_id (known_face_metadata s ! j)) = Some c"
proof -
  from face_distance_length [OF assms(3)] have len: "length ds = length (known_face_encodings s)" .
  with assms(2) have "ds \<noteq> []" by auto
  then obtain j where j: "argmin ds = Inr j" "j < length ds"
    using argmin_range by blast
  from j(2) len assms(1) have jm: "j < length (known_face_metadata s)"
    by (simp add: lookup_ok_def)
  then have "known_face_metadata s ! j \<in> set (known_face_metadata s)" by simp
  with assms(1) obtain c where "student_frame_counts s (md_id (known_face_metadata s ! j)) = Some c"
    unfolding lookup_ok_def by blast
  with j jm show ?thesis by blast
qed

text \<open>With safe lookups a detection raises only when its distances are not computed.\<close>

lemma loop_body_returns:
  assumes "lookup_ok s" and "face_distance x (known_face_encodings s) (snd det) = Inr ds"
  shows "\<exists>entry. fst (loop_body x det s) = Inr entry"
proof (cases "known_face_encodings s = []")
  case True
  then show ?thesis by (simp add: loop_body_def split: prod.splits)
next
  case False
  obtain bx face where det: "det = (bx, face)" by (cases det)
  from lookup_ok_argmin [OF assms(1) False, of x face ds] assms(2) det obtain j c where
    "argmin ds = Inr j" "j < length (known_face_metadata s)"
    "student_frame_counts s (md_id (known_face_metadata s ! j)) = Some c"
    by auto
  with assms(2) show ?thesis
    by (simp add: loop_body_def det Let_def)
qed

lemma loop_body_error:
  assumes "lookup_ok s" and "fst (loop_body x det s) = Inl e"
  shows "e = ValueError \<and> face_distance x (known_face_encodings s) (snd det) = Inl ValueError"
proof (cases "face_distance x (known_face_encodings s) (snd det)")
  case (Inl e')
  from face_distance_error [OF Inl] have "e' = ValueError" .
  with Inl loop_body_distance_raises [OF Inl] assms(2) show ?thesis by simp
next
  case (Inr ds)
  from loop_body_returns [OF assms(1) Inr] assms(2) show ?thesis by simp
qed

lemma loop_body_counts:
  assumes "lookup_ok s"
  shows "student_frame_counts (snd (loop_body x det s)) sid =
           (if matches x s sid det then map_option (\<lambda>c. c + 1) (student_frame_counts s sid)
            else student_frame_counts s sid)"
proof -
  obtain bx face where det: "det = (bx, face)" by (cases det)
  show ?thesis
  proof (cases "face_distance x (known_face_encodings s) face")
    case (Inl e)
    then show ?thesis by (simp add: loop_body_def det matches_def matched_def)
  next
    case ds: (Inr ds)
    show ?thesis
    proof (cases "known_face_encodings s = []")
      case True
      with ds show ?thesis
        by (simp add: loop_body_def det matches_def matched_def argmin_Nil)
    next
      case False
      from lookup_ok_argmin [OF assms False ds] obtain j c where
        "argmin ds = Inr j" "j < length ds" "j < length (known_face_metadata s)"
        "student_frame_counts s (md_id (known_face_metadata s ! j)) = Some c"
        by blast
      with ds show ?thesis
        by (auto simp: loop_body_def det Let_def matches_def matched_def)
    qed
  qed
qed

lemma committed_okD:
  "committed_ok s \<Longrightarrow> length (records_of sid s) =
        (case student_frame_counts s sid of None \<Rightarrow> 0
         | Some c \<Rightarrow> if FRAME_THRESHOLD \<le> c then 1 else 0)"
  unfolding committed_ok_def by blast

lemma committed_ok_bump:
  assumes ok: "committed_ok s" and c: "student_frame_counts s k = Some c"
  shows "committed_ok
           (if c + 1 = FRAME_THRESHOLD
            then try_commit n k (s\<lparr>student_frame_counts := (student_frame_counts s)(k \<mapsto> c + 1)\<rparr>)
            else s\<lparr>student_frame_counts := (student_frame_counts s)(k \<mapsto> c + 1)\<rparr>)"
proof (cases "c + 1 = FRAME_THRESHOLD")
  case True
  then have lt: "\<not> FRAME_THRESHOLD \<le> c" by simp
  from committed_okD [OF ok, of k] c lt have none: "records_of k s = []" by simp
  then have fresh: "k \<notin> set (map reg_student_id (attendance s))"
    by (auto simp: records_of_def filter_empty_conv)
  show ?thesis
    unfolding committed_ok_def
  proof (intro allI)
    fix sid
    show "length (records_of sid (if c + 1 = FRAME_THRESHOLD
            then try_commit n k (s\<lparr>student_frame_counts := (student_frame_counts s)(k \<mapsto> c + 1)\<rparr>)
            else s\<lparr>student_frame_counts := (student_frame_counts s)(k \<mapsto> c + 1)\<rparr>)) =
          (case student_frame_counts (if c + 1 = FRAME_THRESHOLD
            then try_commit n k (s\<lparr>student_frame_counts := (student_frame_counts s)(k \<mapsto> c + 1)\<rparr>)
            else s\<lparr>student_frame_counts := (student_frame_counts s)(k \<mapsto> c + 1)\<rparr>) sid of
             None \<Rightarrow> 0 | Some c \<Rightarrow> if FRAME_THRESHOLD \<le> c then 1 else 0)"
    proof (cases "sid = k")
      case True
      with \<open>c + 1 = FRAME_THRESHOLD\<close> fresh none show ?thesis
        by (simp add: records_of_def try_commit_attendance)
    next
      case False
      with \<open>c + 1 = FRAME_THRESHOLD\<close> fresh committed_okD [OF ok, of sid] show ?thesis
        by (simp add: records_of_def try_commit_attendance)
    qed
  qed
next
  case False
  then have eq: "(FRAME_THRESHOLD \<le> c + 1) = (FRAME_THRESHOLD \<le> c)" by auto
  show ?thesis
    unfolding committed_ok_def
  proof (intro allI)
    fix sid
    show "length (records_of sid (if c + 1 = FRAME_THRESHOLD
            then try_commit n k (s\<lparr>student_frame_counts := (student_frame_counts s)(k \<mapsto> c + 1)\<rparr>)
            else s\<lparr>student_frame_counts := (student_frame_counts s)(k \<mapsto> c + 1)\<rparr>)) =
          (case student_frame_counts (if c + 1 = FRAME_THRESHOLD
            then try_commit n k (s\<lparr>student_frame_counts := (student_frame_counts s)(k \<mapsto> c + 1)\<rparr>)
            else s\<lparr>student_frame_counts := (student_frame_counts s)(k \<mapsto> c + 1)\<rparr>) sid of
             None \<Rightarrow> 0 | Some c \<Rightarrow> if FRAME_THRESHOLD \<le> c then 1 else 0)"
      using False eq c committed_okD [OF ok, of sid]
      by (cases "sid = k") (simp_all add: records_of_def)
  qed
qed

lemma loop_body_committed_ok:
  assumes "committed_ok s"
  shows "committed_ok (snd (loop_body x det s))"
proof -
  from loop_body_state [of x det s] show ?thesis
  proof (elim disjE exE conjE)
    assume "snd (loop_body x det s) = s"
    with assms show ?thesis by simp
  next
    fix k n c
    assume c: "student_frame_counts s k = Some c"
      and eq: "snd (loop_body x det s) =
        (if c + 1 = FRAME_THRESHOLD
         then try_commit n k (s\<lparr>student_frame_counts := (student_frame_counts s)(k \<mapsto> c + 1)\<rparr>)
         else s\<lparr>student_frame_counts := (student_frame_counts s)(k \<mapsto> c + 1)\<rparr>)"
    show ?thesis
      unfolding eq by (rule committed_ok_bump [OF assms c])
  qed
qed

lemma loop_body_attendance:
  "\<exists>new. attendance (snd (loop_body x det s)) = attendance s @ new"
proof -
  from loop_body_state [of x det s] show ?thesis
  proof (elim disjE exE conjE)
    assume "snd (loop_body x det s) = s"
    then show ?thesis by simp
  next
    fix k n c
    assume "snd (loop_body x det s) =
        (if c + 1 = FRAME_THRESHOLD
         then try_commit n k (s\<lparr>student_frame_counts := (student_frame_counts s)(k \<mapsto> c + 1)\<rparr>)
         else s\<lparr>student_frame_counts := (student_frame_counts s)(k \<mapsto> c + 1)\<rparr>)"
    then show ?thesis by (simp add: try_commit_attendance)
  qed
qed


section \<open>The loop over the detections of a frame\<close>

text \<open>A property of the state that every detection keeps is kept by the loop.\<close>

lemma detect_loop_invariant:
  assumes step: "\<And>det s. P s \<Longrightarrow> P (snd (loop_body x det s))" and "P s"
  shows "P (snd (detect_loop x dets acc s))"
  using assms(2)
proof (induction dets arbitrary: acc s)
  case Nil
  then show ?case by simp
next
  case (Cons det rest)
  obtain r s' where lb: "loop_body x det s = (r, s')" by (cases "loop_body x det s")
  with step [OF Cons.prems, of det] have P': "P s'" by simp
  show ?case
  proof (cases r)
    case (Inl e)
    with lb P' show ?thesis by simp
  next
    case (Inr entry)
    with lb Cons.IH [OF P', of "acc @ [entry]"] show ?thesis by simp
  qed
qed

lemma detect_loop_fixed:
  "students (snd (detect_loop x dets acc s)) = students s
   \<and> known_face_encodings (snd (detect_loop x dets acc s)) = known_face_encodings s
   \<and> known_face_metadata (snd (detect_loop x dets acc s)) = known_face_metadata s"
  by (rule detect_loop_invariant [where P = "\<lambda>t. students t = students s
        \<and> known_face_encodings t = known_face_encodings s
        \<and> known_face_metadata t = known_face_metadata s"])
     (simp_all add: loop_body_fixed)

lemma detect_loop_lookup_ok:
  "lookup_ok s \<Longrightarrow> lookup_ok (snd (detect_loop x dets acc s))"
  by (rule detect_loop_invariant [where P = lookup_ok]) (simp_all add: loop_body_lookup_ok)

lemma detect_loop_committed_ok:
  "committed_ok s \<Longrightarrow> committed_ok (snd (detect_loop x dets acc s))"
  by (rule detect_loop_invariant [where P = committed_ok]) (simp_all add: loop_body_committed_ok)

lemma detect_loop_attendance:
  "\<exists>new. attendance (snd (detect_loop x dets acc s)) = attendance s @ new"
proof (rule detect_loop_invariant [where P = "\<lambda>t. \<exists>new. attendance t = attendance s @ new"])
  fix det and t :: state
  assume "\<exists>new. attendance t = attendance s @ new"
  then obtain new1 where "attendance t = attendance s @ new1" by blast
  moreover from loop_body_attendance [of x det t] obtain new2 where
    "attendance (snd (loop_body x det t)) = attendance t @ new2" by blast
  ultimately show "\<exists>new. attendance (snd (loop_body x det t)) = attendance s @ new" by simp
next
  show "\<exists>new. attendance s = attendance s @ new" by simp
qed

lemma matched_cong:
  "known_face_encodings s' = known_face_encodings s \<Longrightarrow>
   known_face_metadata s' = known_face_metadata s \<Longrightarrow> matched x s' = matched x s"
  by (rule ext) (simp add: matched_def split: sum.splits)

lemma matches_cong:
  assumes "known_face_encodings s' = known_face_encodings s"
    and "known_face_metadata s' = known_face_metadata s"
  shows "matches x s' = matches x s"
  using matched_cong [OF assms, of x] by (intro ext) (simp add: matches_def)

text \<open>A face whose distances are not computed is matched to nothing, and so is every
  face of its length.\<close>

lemma raises_no_match:
  assumes "face_distance x (known_face_encodings s) face = Inl e"
    and "length (snd det) = length face"
  shows "\<not> matches x s sid det"
  using face_distance_raises_length [OF assms(1), of "snd det"] assms(2)
  by (simp add: matches_def matched_def)

text \<open>With safe lookups the loop ends with an exception only of the distance
  computation.\<close>

lemma detect_loop_error:
  "lookup_ok s \<Longrightarrow> fst (detect_loop x dets acc s) = Inl e \<Longrightarrow> e = ValueError"
proof (induction dets arbitrary: acc s)
  case Nil
  then show ?case by simp
next
  case (Cons det rest)
  obtain r s' where lb: "loop_body x det s = (r, s')" by (cases "loop_body x det s")
  with loop_body_lookup_ok [OF Cons.prems(1), of x det] have ok': "lookup_ok s'" by simp
  show ?case
  proof (cases r)
    case (Inl e')
    with lb loop_body_error [OF Cons.prems(1), of x det e'] Cons.prems(2) show ?thesis by simp
  next
    case (Inr entry)
    with lb Cons.prems(2) have "fst (detect_loop x rest (acc @ [entry]) s') = Inl e" by simp
    from Cons.IH [OF ok' this] show ?thesis .
  qed
qed

text \<open>With safe lookups, and the distances of every detection computed, the loop returns
  normally, with one entry per detection after those it started with.\<close>

lemma detect_loop_returns:
  "lookup_ok s \<Longrightarrow>
   \<forall>det \<in> set dets. \<exists>ds. face_distance x (known_face_encodings s) (snd det) = Inr ds \<Longrightarrow>
   \<exists>entries. fst (detect_loop x dets acc s) = Inr (acc @ entries) \<and> length entries = length dets"
proof (induction dets arbitrary: acc s)
  case Nil
  then show ?case by simp
next
  case (Cons det rest)
  from Cons.prems(2) obtain ds where
    "face_distance x (known_face_encodings s) (snd det) = Inr ds" by auto
  from loop_body_returns [OF Cons.prems(1) this] obtain entry s'
    where lb: "loop_body x det s = (Inr entry, s')" by (cases "loop_body x det s") auto
  with loop_body_lookup_ok [OF Cons.prems(1), of x det] have ok': "lookup_ok s'" by simp
  from lb loop_body_fixed(2) [of x det s]
  have k: "known_face_encodings s' = known_face_encodings s" by simp
  from Cons.prems(2) k have
    "\<forall>det \<in> set rest. \<exists>ds. face_distance x (known_face_encodings s') (snd det) = Inr ds"
    by simp
  from Cons.IH [OF ok' this, of "acc @ [entry]"] obtain entries where
    "fst (detect_loop x rest (acc @ [entry]) s') = Inr ((acc @ [entry]) @ entries)"
    "length entries = length rest" by blast
  with lb have "fst (detect_loop x (det # rest) acc s) = Inr (acc @ (entry # entries))
      \<and> length (entry # entries) = length (det # rest)" by simp
  then show ?case by blast
qed

text \<open>When the faces of a frame have one length, every counter goes up by the number
  of detections matched to its identity: an exception of the distance computation
  occurs at the first detection or at none, and then no detection is matched.\<close>

lemma detect_loop_counts:
  "lookup_ok s \<Longrightarrow> \<forall>det \<in> set dets. length (snd det) = w \<Longrightarrow>
   student_frame_counts (snd (detect_loop x dets acc s)) sid =
     map_option (\<lambda>c. c + int (length (filter (matches x s sid) dets))) (student_frame_counts s sid)"
proof (induction dets arbitrary: acc s)
  case Nil
  then show ?case by (simp add: option.map_ident)
next
  case (Cons det rest)
  obtain r s' where lb: "loop_body x det s = (r, s')" by (cases "loop_body x det s")
  show ?case
  proof (cases r)
    case (Inl e)
    from loop_body_error [OF Cons.prems(1), of x det e] lb Inl
    have raise: "face_distance x (known_face_encodings s) (snd det) = Inl ValueError" by simp
    have "\<not> matches x s sid d" if "d \<in> set (det # rest)" for d
      using raises_no_match [OF raise, of d sid] Cons.prems(2) that by auto
    then have "filter (matches x s sid) (det # rest) = []"
      by (simp add: filter_empty_conv)
    moreover from loop_body_raise [of x det s e] lb Inl have "s' = s" by simp
    ultimately show ?thesis using lb Inl
      by (simp add: option.map_ident del: filter.simps)
  next
    case (Inr entry)
    from lb loop_body_lookup_ok [OF Cons.prems(1), of x det] have ok': "lookup_ok s'" by simp
    from lb loop_body_fixed [of x det s] have "matches x s' = matches x s"
      by (intro matches_cong) simp_all
    with Cons.IH [OF ok', of "acc @ [entry]"] Cons.prems(2) have
      "student_frame_counts (snd (detect_loop x rest (acc @ [entry]) s')) sid =
       map_option (\<lambda>c. c + int (length (filter (matches x s sid) rest))) (student_frame_counts s' sid)"
      by simp
    moreover from lb loop_body_counts [OF Cons.prems(1), of x det sid] have
      "student_frame_counts s' sid =
             (if matches x s sid det then map_option (\<lambda>c. c + 1) (student_frame_counts s sid)
              else student_frame_counts s sid)" by simp
    ultimately show ?thesis using lb Inr
      by (cases "student_frame_counts s sid") simp_all
  qed
qed

section \<open>One frame and a sequence of frames\<close>

lemma process_frame_state:
  "snd (process_frame x contents s) =
     (case cv2_imdecode x contents of
        Inr (Some img) \<Rightarrow> snd (detect_loop x (detections x img) [] s)
      | _ \<Rightarrow> s)"
  by (simp add: process_frame_def split: option.splits prod.splits sum.splits)

lemma process_frame_fixed:
  "students (snd (process_frame x contents s)) = students s"
  "known_face_encodings (snd (process_frame x contents s)) = known_face_encodings s"
  "known_face_metadata (snd (process_frame x contents s)) = known_face_metadata s"
  by (simp_all add: process_frame_state detect_loop_fixed split: option.splits sum.splits)

lemma process_frame_lookup_ok:
  "lookup_ok s \<Longrightarrow> lookup_ok (snd (process_frame x contents s))"
  by (simp add: process_frame_state detect_loop_lookup_ok split: option.splits sum.splits)

lemma process_frame_committed_ok:
  "committed_ok s \<Longrightarrow> committed_ok (snd (process_frame x contents s))"
  by (simp add: process_frame_state detect_loop_committed_ok split: option.splits sum.splits)

lemma process_frame_attendance:
  "\<exists>new. attendance (snd (process_frame x contents s)) = attendance s @ new"
  by (simp add: process_frame_state detect_loop_attendance split: option.splits sum.splits)

text \<open>The faces of one image have one length when the encoder has a fixed width.\<close>

lemma fixed_width_detections:
  assumes "fixed_width x"
  shows "\<exists>w. \<forall>img. \<forall>det \<in> set (detections x img). length (snd det) = w"
proof -
  from assms obtain w where
    w: "\<And>img locs e. e \<in> set (face_encodings x img locs) \<Longrightarrow> length e = w"
    unfolding fixed_width_def by blast
  have "length (snd det) = w" if "det \<in> set (detections x img)" for img det
  proof -
    from that have "snd det \<in> set (face_encodings x (cvtColor x (resize x img))
                        (Some (face_locations x (cvtColor x (resize x img)))))"
      unfolding detections_def Let_def
      by (metis prod.collapse set_zip_rightD)
    then show ?thesis by (rule w)
  qed
  then show ?thesis by blast
qed

lemma process_frame_counts:
  assumes "lookup_ok s" and "fixed_width x"
  shows "student_frame_counts (snd (process_frame x contents s)) sid =
           map_option (\<lambda>c. c + int (hits x s sid contents)) (student_frame_counts s sid)"
proof (cases "cv2_imdecode x contents")
  case (Inl e)
  then show ?thesis by (simp add: process_frame_state hits_def option.map_ident)
next
  case (Inr r)
  show ?thesis
  proof (cases r)
    case None
    with Inr show ?thesis by (simp add: process_frame_state hits_def option.map_ident)
  next
    case (Some img)
    from fixed_width_detections [OF assms(2)] obtain w where
      "\<forall>det \<in> set (detections x img). length (snd det) = w" by blast
    from detect_loop_counts [OF assms(1) this, of x "[]" sid] Inr Some show ?thesis
      by (simp add: process_frame_state hits_def)
  qed
qed

text \<open>With safe lookups \<open>process_frame\<close> raises no IndexError and no KeyError: its only
  exceptions are those of the decoder and of the distance computation.\<close>

lemma process_frame_error:
  assumes "lookup_ok s" and "fst (process_frame x contents s) = Inl e"
  shows "e = CvError \<or> e = ValueError"
proof (cases "cv2_imdecode x contents")
  case (Inl e')
  with assms(2) show ?thesis
    by (auto simp: process_frame_def cv2_imdecode_def split: if_splits)
next
  case (Inr r)
  show ?thesis
  proof (cases r)
    case None
    with Inr assms(2) show ?thesis by (simp add: process_frame_def)
  next
    case (Some img)
    obtain r' s' where dl: "detect_loop x (detections x img) [] s = (r', s')"
      by (cases "detect_loop x (detections x img) [] s")
    with Inr Some assms(2) have "fst (detect_loop x (detections x img) [] s) = Inl e"
      by (cases r') (simp_all add: process_frame_def)
    from detect_loop_error [OF assms(1) this] show ?thesis by simp
  qed
qed

lemma hits_cong:
  assumes "known_face_encodings s' = known_face_encodings s"
    and "known_face_metadata s' = known_face_metadata s"
  shows "hits x s' = hits x s"
  using matches_cong [OF assms, of x]
  by (intro ext) (simp add: hits_def split: option.splits sum.splits)

lemma run_frames_fixed:
  "students (run_frames x frames s) = students s
   \<and> known_face_encodings (run_frames x frames s) = known_face_encodings s
   \<and> known_face_metadata (run_frames x frames s) = known_face_metadata s"
  by (induction frames arbitrary: s) (simp_all add: process_frame_fixed)

lemma run_frames_lookup_ok: "lookup_ok s \<Longrightarrow> lookup_ok (run_frames x frames s)"
  by (induction frames arbitrary: s) (simp_all add: process_frame_lookup_ok)

lemma run_frames_committed_ok: "committed_ok s \<Longrightarrow> committed_ok (run_frames x frames s)"
  by (induction frames arbitrary: s) (simp_all add: process_frame_committed_ok)

lemma run_frames_attendance:
  "\<exists>new. attendance (run_frames x frames s) = attendance s @ new"
proof (induction frames arbitrary: s)
  case Nil
  show ?case by simp
next
  case (Cons f rest)
  from process_frame_attendance [of x f s] obtain new1 where
    "attendance (snd (process_frame x f s)) = attendance s @ new1" by blast
  moreover from Cons.IH [of "snd (process_frame x f s)"] obtain new2 where
    "attendance (run_frames x rest (snd (process_frame x f s)))
       = attendance (snd (process_frame x f s)) @ new2" by blast
  ultimately show ?case by simp
qed

lemma run_frames_counts:
  "lookup_ok s \<Longrightarrow> fixed_width x \<Longrightarrow>
   student_frame_counts (run_frames x frames s) sid =
     map_option (\<lambda>c. c + int (sum_list (map (hits x s sid) frames))) (student_frame_counts s sid)"
proof (induction frames arbitrary: s)
  case Nil
  then show ?case by (simp add: option.map_ident)
next
  case (Cons f rest)
  define s' where "s' = snd (process_frame x f s)"
  have ok': "lookup_ok s'" unfolding s'_def by (rule process_frame_lookup_ok [OF Cons.prems(1)])
  have "hits x s' = hits x s" unfolding s'_def
    by (intro hits_cong) (simp_all add: process_frame_fixed)
  with Cons.IH [OF ok' Cons.prems(2)] have
    "student_frame_counts (run_frames x rest s') sid =
     map_option (\<lambda>c. c + int (sum_list (map (hits x s sid) rest))) (student_frame_counts s' sid)"
    by simp
  moreover have "student_frame_counts s' sid =
     map_option (\<lambda>c. c + int (hits x s sid f)) (student_frame_counts s sid)"
    unfolding s'_def by (rule process_frame_counts [OF Cons.prems])
  ultimately show ?case
    by (cases "student_frame_counts s sid") (simp_all add: s'_def)
qed

section \<open>Loading the students at session start\<close>

lemma load_students_fixed:
  "students (snd (load_students rows s)) = students s
   \<and> attendance (snd (load_students rows s)) = attendance s"
  by (induction rows arbitrary: s) (simp_all split: sum.splits)

lemma load_students_lookup_ok:
  "lookup_ok s \<Longrightarrow> lookup_ok (snd (load_students rows s))"
proof (induction rows arbitrary: s)
  case Nil
  then show ?case by simp
next
  case (Cons r rest)
  show ?case
  proof (cases "frombuffer (encoding_binary r)")
    case (Inl e)
    with Cons.prems show ?thesis by simp
  next
    case (Inr v)
    have "lookup_ok (s\<lparr>known_face_encodings := known_face_encodings s @ [v],
               known_face_metadata := known_face_metadata s
                  @ [\<lparr>md_name = student_name r, md_id = student_id r\<rparr>],
               student_frame_counts := (student_frame_counts s)(student_id r \<mapsto> 0)\<rparr>)"
      using Cons.prems by (auto simp: lookup_ok_def)
    from Cons.IH [OF this] Inr show ?thesis by simp
  qed
qed

lemma load_students_zero:
  "(\<forall>sid c. student_frame_counts s sid = Some c \<longrightarrow> c = 0) \<Longrightarrow>
   student_frame_counts (snd (load_students rows s)) sid = Some c \<Longrightarrow> c = 0"
proof (induction rows arbitrary: s)
  case Nil
  then show ?case by simp
next
  case (Cons r rest)
  show ?case
  proof (cases "frombuffer (encoding_binary r)")
    case (Inl e)
    with Cons.prems show ?thesis by simp
  next
    case (Inr v)
    let ?s = "s\<lparr>known_face_encodings := known_face_encodings s @ [v],
               known_face_metadata := known_face_metadata s
                  @ [\<lparr>md_name = student_name r, md_id = student_id r\<rparr>],
               student_frame_counts := (student_frame_counts s)(student_id r \<mapsto> 0)\<rparr>"
    have z: "\<forall>sid c. student_frame_counts ?s sid = Some c \<longrightarrow> c = 0"
      using Cons.prems(1) by simp
    from Cons.prems(2) Inr have "student_frame_counts (snd (load_students rest ?s)) sid = Some c"
      by simp
    from Cons.IH [OF z this] show ?thesis .
  qed
qed

text \<open>The decoded vector of a row whose blob length is a multiple of eight.\<close>

lemma load_students_loaded:
  assumes "\<forall>r \<in> set rows. length (encoding_binary r) mod 8 = 0"
  shows "fst (load_students rows s) = Inr ()
    \<and> known_face_encodings (snd (load_students rows s))
        = known_face_encodings s @ map (\<lambda>r. map bytes_word (chunks8 (encoding_binary r))) rows
    \<and> known_face_metadata (snd (load_students rows s))
        = known_face_metadata s
            @ map (\<lambda>r. \<lparr>md_name = student_name r, md_id = student_id r\<rparr>) rows
    \<and> student_frame_counts (snd (load_students rows s))
        = (\<lambda>sid. if sid \<in> set (map student_id rows) then Some 0
                  else student_frame_counts s sid)"
  using assms
proof (induction rows arbitrary: s)
  case Nil
  show ?case by simp
next
  case (Cons r rest)
  let ?v = "map bytes_word (chunks8 (encoding_binary r))"
  let ?s = "s\<lparr>known_face_encodings := known_face_encodings s @ [?v],
               known_face_metadata := known_face_metadata s
                  @ [\<lparr>md_name = student_name r, md_id = student_id r\<rparr>],
               student_frame_counts := (student_frame_counts s)(student_id r \<mapsto> 0)\<rparr>"
  from Cons.prems have fb: "frombuffer (encoding_binary r) = Inr ?v"
    by (simp add: frombuffer_def)
  from Cons.prems have "\<forall>r \<in> set rest. length (encoding_binary r) mod 8 = 0" by simp
  from Cons.IH [OF this, of ?s] fb show ?case
    by (auto simp: fun_eq_iff)
qed

text \<open>The load stops at the first row whose blob length is not a multiple of eight.\<close>

lemma load_students_append:
  assumes "\<forall>r \<in> set pre. length (encoding_binary r) mod 8 = 0"
  shows "load_students (pre @ rest) s = load_students rest (snd (load_students pre s))"
  using assms
proof (induction pre arbitrary: s)
  case Nil
  show ?case by simp
next
  case (Cons r pre)
  then show ?case by (simp add: frombuffer_def)
qed

lemma load_students_bad:
  assumes "length (encoding_binary r) mod 8 \<noteq> 0"
  shows "load_students (r # rest) s = (Inl ValueError, s)"
  using assms by (simp add: frombuffer_def)

lemma load_students_error:
  "fst (load_students rows s) = Inl e \<Longrightarrow> e = ValueError"
  by (induction rows arbitrary: s) (auto simp: frombuffer_def split: sum.splits if_splits)

lemma start_registration_state:
  "snd (start_registration s) =
     snd (load_students (students s)
            (s\<lparr>student_frame_counts := Map.empty, known_face_encodings := [],
               known_face_metadata := [], attendance := []\<rparr>))"
  by (simp add: start_registration_def Let_def split: prod.splits sum.splits)

lemma start_registration_lookup_ok: "lookup_ok (snd (start_registration s))"
  unfolding start_registration_state
  by (rule load_students_lookup_ok) (simp add: lookup_ok_def)

lemma start_registration_fixed:
  "students (snd (start_registration s)) = students s"
  "attendance (snd (start_registration s)) = []"
  unfolding start_registration_state by (simp_all add: load_students_fixed)

lemma start_registration_zero:
  "student_frame_counts (snd (start_registration s)) sid = Some c \<Longrightarrow> c = 0"
  unfolding start_registration_state
  by (erule load_students_zero [rotated]) simp

lemma start_registration_committed_ok: "committed_ok (snd (start_registration s))"
  unfolding committed_ok_def
proof
  fix sid
  show "length (records_of sid (snd (start_registration s))) =
         (case student_frame_counts (snd (start_registration s)) sid of
            None \<Rightarrow> 0 | Some c \<Rightarrow> if FRAME_THRESHOLD \<le> c then 1 else 0)"
    using start_registration_zero [of s sid]
    by (auto simp: records_of_def start_registration_fixed FRAME_THRESHOLD_def
             split: option.splits)
qed

section \<open>Facts about the concrete instance\<close>

lemma demo_start:
  "start_registration demo_init = (Inr (Message ''Registration started.''), demo_loaded)"
  by (simp add: start_registration_def demo_init_def demo_loaded_def demo_students_def
                frombuffer_def bytes_word_def)

lemma demo_decodes:
  "cv2_imdecode demo_ext (b # bs) = (if b = 255 then Inr None else Inr (Some (b # bs)))"
  by (simp add: cv2_imdecode_def demo_ext_def)

lemma demo_detections:
  "detections demo_ext [10, 0, 30] = [((0, 1, 1, 0), [10]), ((0, 1, 1, 0), [30])]"
  by (simp add: detections_def demo_ext_def)

lemma demo_fixed_width: "fixed_width demo_ext"
  unfolding fixed_width_def by (rule exI [of _ 1]) (simp add: demo_ext_def)

text \<open>Six frames showing Ann's face, from the start of the session.\<close>

lemma demo_run6:
  "run_frames demo_ext [[10], [10], [10], [10], [10], [10]] demo_loaded
   = demo_loaded\<lparr>student_frame_counts := [''s1'' \<mapsto> 6, ''s2'' \<mapsto> 0],
        attendance := [\<lparr>reg_student_id = ''s1'', reg_student_name = ''Ann''\<rparr>]\<rparr>"
  by (simp add: process_frame_def cv2_imdecode_def detections_def loop_body_def demo_ext_def
        demo_loaded_def face_distance_def argmin_def elem_sum_def TOLERANCE_def
        FRAME_THRESHOLD_def Let_def try_commit_def insert_registration_def fun_upd_twist)

section \<open>Frames that change nothing\<close>

lemma loop_body_empty_store:
  "known_face_encodings s = [] \<Longrightarrow>
   loop_body x det s =
     (Inr \<lparr>name = ''Unknown'', distance = None, bounding_box = scale_box (fst det)\<rparr>, s)"
  by (simp add: loop_body_def split: prod.splits)

lemma detect_loop_empty_store:
  "known_face_encodings s = [] \<Longrightarrow>
   detect_loop x dets acc s =
     (Inr (acc @ map (\<lambda>det. \<lparr>name = ''Unknown'', distance = None,
                              bounding_box = scale_box (fst det)\<rparr>) dets), s)"
  by (induction dets arbitrary: acc) (simp_all add: loop_body_empty_store)

text \<open>When the decoder returns \<open>None\<close>, the call returns the error response and the
  state it started from.\<close>

lemma process_frame_undecodable:
  assumes "cv2_imdecode x contents = Inr None"
  shows "process_frame x contents s
           = (Inr (Error ''Error. Could not decode the image.''), s)"
  using assms by (simp add: process_frame_def)

text \<open>C8: on an empty upload, image bytes that fail to decode, \<open>process_frame\<close> does not
  return the error response: the exception of \<open>cv2.imdecode\<close> leaves the endpoint
  uncaught. The state is the one the call started from.\<close>

theorem process_frame_empty_upload:
  "process_frame x [] s = (Inl CvError, s)"
  by (simp add: process_frame_def cv2_imdecode_def)

text \<open>C9: a frame in which the detector finds nothing is answered with an empty
  \<open>detected\<close> list and leaves the state, with every counter and both tables, as it
  was.\<close>

theorem process_frame_no_detections:
  assumes "cv2_imdecode x contents = Inr (Some img)" and "detections x img = []"
  shows "process_frame x contents s = (Inr (Detected []), s)"
  using assms by (simp add: process_frame_def)

theorem process_frame_no_detections_witness:
  "cv2_imdecode demo_ext [0] = Inr (Some [0]) \<and> detections demo_ext [0] = []
   \<and> process_frame demo_ext [0] demo_loaded = (Inr (Detected []), demo_loaded)"
proof -
  have h1: "cv2_imdecode demo_ext [0] = Inr (Some [0])" by (simp add: demo_decodes)
  have h2: "detections demo_ext [0] = []" by (simp add: detections_def demo_ext_def)
  from process_frame_no_detections [OF h1 h2, of demo_loaded] h1 h2 show ?thesis by simp
qed

text \<open>C3: while \<open>known_face_encodings\<close> is empty, every detection of a frame is reported
  as \<open>Unknown\<close> with no distance, and the state (so every counter) is unchanged.\<close>

theorem process_frame_empty_store:
  assumes "known_face_encodings s = []" and "cv2_imdecode x contents = Inr (Some img)"
  shows "process_frame x contents s =
           (Inr (Detected (map (\<lambda>det. \<lparr>name = ''Unknown'', distance = None,
                                        bounding_box = scale_box (fst det)\<rparr>)
                               (detections x img))), s)"
  using assms by (simp add: process_frame_def detect_loop_empty_store)

theorem process_frame_empty_store_witness:
  "known_face_encodings demo_init = []
   \<and> cv2_imdecode demo_ext [10, 0, 30] = Inr (Some [10, 0, 30])
   \<and> process_frame demo_ext [10, 0, 30] demo_init =
        (Inr (Detected [\<lparr>name = ''Unknown'', distance = None, bounding_box = (0, 4, 4, 0)\<rparr>,
                        \<lparr>name = ''Unknown'', distance = None, bounding_box = (0, 4, 4, 0)\<rparr>]),
         demo_init)"
proof -
  have h1: "known_face_encodings demo_init = []" by (simp add: demo_init_def)
  have h2: "cv2_imdecode demo_ext [10, 0, 30] = Inr (Some [10, 0, 30])"
    by (simp add: demo_decodes)
  from process_frame_empty_store [OF h1 h2] h1 h2 show ?thesis
    by (simp add: demo_detections)
qed

section \<open>One attendance record per identity and session\<close>

text \<open>C1: in a session (the state \<open>start_registration\<close> leaves, followed by any
  sequence of \<open>process_frame\<close> calls) the attendance table holds at most one record of
  an identity; it holds exactly one if and only if the identity's counter has reached
  \<open>FRAME_THRESHOLD\<close>; and once it holds one, any further frames leave the identity's
  records as they are.\<close>

theorem one_record_per_session:
  assumes "s1 = snd (start_registration s0)" and "s = run_frames x frames s1"
  shows "length (records_of sid s) \<le> 1
    \<and> (length (records_of sid s) = 1
        \<longleftrightarrow> (\<exists>c. student_frame_counts s sid = Some c \<and> FRAME_THRESHOLD \<le> c))
    \<and> (length (records_of sid s) = 1
        \<longrightarrow> records_of sid (run_frames x later s) = records_of sid s)"
proof -
  have ok1: "committed_ok s1" "lookup_ok s1"
    unfolding assms(1) by (rule start_registration_committed_ok, rule start_registration_lookup_ok)
  then have ok: "committed_ok s" "lookup_ok s"
    unfolding assms(2) by (simp_all add: run_frames_committed_ok run_frames_lookup_ok)
  from committed_okD [OF ok(1), of sid]
  have a: "length (records_of sid s) \<le> 1"
    and b: "length (records_of sid s) = 1
        \<longleftrightarrow> (\<exists>c. student_frame_counts s sid = Some c \<and> FRAME_THRESHOLD \<le> c)"
    by (auto split: option.splits if_splits)
  have c: "records_of sid (run_frames x later s) = records_of sid s"
    if one: "length (records_of sid s) = 1"
  proof -
    from run_frames_attendance [of x later s] obtain new where
      new: "attendance (run_frames x later s) = attendance s @ new" by blast
    have "committed_ok (run_frames x later s)" by (rule run_frames_committed_ok [OF ok(1)])
    from committed_okD [OF this, of sid] have "length (records_of sid (run_frames x later s)) \<le> 1"
      by (auto split: option.splits if_splits)
    with one new have "filter (\<lambda>r. reg_student_id r = sid) new = []"
      by (simp add: records_of_def)
    with new show ?thesis by (simp add: records_of_def)
  qed
  from a b c show ?thesis by blast
qed

text \<open>Six frames showing Ann's face, from the start of the session.\<close>

theorem one_record_per_session_witness:
  "demo_loaded = snd (start_registration demo_init)
   \<and> records_of ''s1'' (run_frames demo_ext [[10], [10], [10], [10], [10], [10]] demo_loaded)
       = [\<lparr>reg_student_id = ''s1'', reg_student_name = ''Ann''\<rparr>]
   \<and> student_frame_counts
         (run_frames demo_ext [[10], [10], [10], [10], [10], [10]] demo_loaded) ''s1'' = Some 6
   \<and> FRAME_THRESHOLD \<le> 6
   \<and> records_of ''s1''
         (run_frames demo_ext [[10], [10]]
            (run_frames demo_ext [[10], [10], [10], [10], [10], [10]] demo_loaded))
       = records_of ''s1'' (run_frames demo_ext [[10], [10], [10], [10], [10], [10]] demo_loaded)"
proof -
  let ?S = "run_frames demo_ext [[10], [10], [10], [10], [10], [10]] demo_loaded"
  have h: "demo_loaded = snd (start_registration demo_init)" by (simp add: demo_start)
  have r: "records_of ''s1'' ?S = [\<lparr>reg_student_id = ''s1'', reg_student_name = ''Ann''\<rparr>]"
    unfolding demo_run6 by (simp add: records_of_def)
  have c: "student_frame_counts ?S ''s1'' = Some 6"
    unfolding demo_run6 by simp
  have one: "length (records_of ''s1'' ?S) = 1" unfolding r by simp
  from one_record_per_session [OF h refl, of "''s1''" demo_ext
         "[[10], [10], [10], [10], [10], [10]]" "[[10], [10]]"]
  have "length (records_of ''s1'' ?S) = 1
        \<longrightarrow> records_of ''s1'' (run_frames demo_ext [[10], [10]] ?S) = records_of ''s1'' ?S"
    by blast
  with one have "records_of ''s1'' (run_frames demo_ext [[10], [10]] ?S) = records_of ''s1'' ?S"
    by (rule rev_mp)
  moreover have "FRAME_THRESHOLD \<le> 6" by (simp add: FRAME_THRESHOLD_def)
  ultimately show ?thesis using h r c by blast
qed

section \<open>Reachable states\<close>

lemma add_student_memory:
  "student_frame_counts (snd (add_student x n k contents s)) = student_frame_counts s"
  "known_face_encodings (snd (add_student x n k contents s)) = known_face_encodings s"
  "known_face_metadata (snd (add_student x n k contents s)) = known_face_metadata s"
  by (simp_all add: add_student_def split: sum.splits option.splits list.splits)

lemma delete_student_memory:
  "student_frame_counts (snd (delete_student k s)) = student_frame_counts s"
  "known_face_encodings (snd (delete_student k s)) = known_face_encodings s"
  "known_face_metadata (snd (delete_student k s)) = known_face_metadata s"
  by (simp_all add: delete_student_def split: option.splits)

lemma endpoint_lookup_ok: "lookup_ok s \<Longrightarrow> lookup_ok (snd (endpoint x c s))"
proof (cases c)
  case (AddStudent n k contents)
  assume "lookup_ok s"
  with AddStudent show ?thesis by (simp add: lookup_ok_def add_student_memory)
next
  case (DeleteStudent k)
  assume "lookup_ok s"
  with DeleteStudent show ?thesis by (simp add: lookup_ok_def delete_student_memory)
next
  case StartRegistration
  then show ?thesis by (simp add: start_registration_lookup_ok)
next
  case (ProcessFrame contents)
  assume "lookup_ok s"
  with ProcessFrame show ?thesis by (simp add: process_frame_lookup_ok)
qed

lemma run_calls_lookup_ok: "lookup_ok s \<Longrightarrow> lookup_ok (run_calls x calls s)"
  by (induction calls arbitrary: s) (simp_all add: endpoint_lookup_ok)

lemma initial_lookup_ok: "initial s \<Longrightarrow> lookup_ok s"
  by (simp add: initial_def lookup_ok_def)

lemma reachable_lookup_ok: "initial s0 \<Longrightarrow> lookup_ok (run_calls x calls s0)"
  by (simp add: run_calls_lookup_ok initial_lookup_ok)

lemma demo_initial: "initial demo_init"
  by (simp add: initial_def demo_init_def)


text \<open>C10: in every state reached from the start of the process by any sequence of
  calls of \<open>add_student\<close>, \<open>delete_student\<close>, \<open>start_registration\<close> and \<open>process_frame\<close>
  (whether they return or raise), the encodings list and the metadata list have the
  same length and every id in the metadata list is a key of the counter map; and
  \<open>process_frame\<close> in such a state raises neither the IndexError of the metadata
  lookup nor the KeyError of the counter increment, whatever the frame.\<close>

theorem reachable_lookups_safe:
  assumes "initial s0" and "s = run_calls x calls s0"
  shows "length (known_face_encodings s) = length (known_face_metadata s)
    \<and> (\<forall>m \<in> set (known_face_metadata s). md_id m \<in> dom (student_frame_counts s))
    \<and> (\<forall>face ds. known_face_encodings s \<noteq> []
          \<and> face_distance x (known_face_encodings s) face = Inr ds
          \<longrightarrow> (\<exists>j c. argmin ds = Inr j \<and> j < length (known_face_metadata s)
                 \<and> student_frame_counts s (md_id (known_face_metadata s ! j)) = Some c))
    \<and> (\<forall>contents. fst (process_frame x contents s) \<noteq> Inl IndexError
                  \<and> fst (process_frame x contents s) \<noteq> Inl KeyError)"
proof -
  from reachable_lookup_ok [OF assms(1), of x calls] assms(2) have ok: "lookup_ok s" by simp
  have a: "fst (process_frame x contents s) \<noteq> Inl IndexError
        \<and> fst (process_frame x contents s) \<noteq> Inl KeyError" for contents
    using process_frame_error [OF ok, of x contents] by auto
  have b: "\<exists>j c. argmin ds = Inr j \<and> j < length (known_face_metadata s)
                 \<and> student_frame_counts s (md_id (known_face_metadata s ! j)) = Some c"
    if "known_face_encodings s \<noteq> []" "face_distance x (known_face_encodings s) face = Inr ds"
    for face ds
    using lookup_ok_argmin [OF ok that] by blast
  from ok a b show ?thesis unfolding lookup_ok_def by blast
qed

lemma demo_calls_store:
  "known_face_encodings (run_calls demo_ext demo_calls demo_init) = [[10], [30], [50]]
   \<and> known_face_metadata (run_calls demo_ext demo_calls demo_init) =
        [\<lparr>md_name = ''Ann'', md_id = ''s1''\<rparr>, \<lparr>md_name = ''Bob'', md_id = ''s2''\<rparr>,
         \<lparr>md_name = ''Cy'', md_id = ''s3''\<rparr>]"
proof -
  have a: "snd (add_student demo_ext ''Cy'' ''s3'' [50] demo_init) =
      demo_init\<lparr>students := demo_students @
        [\<lparr>student_id = ''s3'', student_name = ''Cy'',
          encoding_binary = [50, 0, 0, 0, 0, 0, 0, 0]\<rparr>]\<rparr>"
    by (simp add: add_student_def cv2_imdecode_def demo_ext_def insert_student_def
          demo_init_def demo_students_def tobytes_def word_bytes_def upt_rec)
  have b: "known_face_encodings (snd (start_registration
      (demo_init\<lparr>students := demo_students @
        [\<lparr>student_id = ''s3'', student_name = ''Cy'',
          encoding_binary = [50, 0, 0, 0, 0, 0, 0, 0]\<rparr>]\<rparr>))) = [[10], [30], [50]]
    \<and> known_face_metadata (snd (start_registration
      (demo_init\<lparr>students := demo_students @
        [\<lparr>student_id = ''s3'', student_name = ''Cy'',
          encoding_binary = [50, 0, 0, 0, 0, 0, 0, 0]\<rparr>]\<rparr>))) =
        [\<lparr>md_name = ''Ann'', md_id = ''s1''\<rparr>, \<lparr>md_name = ''Bob'', md_id = ''s2''\<rparr>,
         \<lparr>md_name = ''Cy'', md_id = ''s3''\<rparr>]"
    by (simp add: start_registration_def demo_init_def demo_students_def
          frombuffer_def bytes_word_def)
  show ?thesis
    unfolding demo_calls_def
    by (simp add: a b process_frame_fixed delete_student_memory)
qed

theorem reachable_lookups_safe_witness:
  "initial demo_init
   \<and> length (known_face_encodings (run_calls demo_ext demo_calls demo_init)) = 3
   \<and> length (known_face_metadata (run_calls demo_ext demo_calls demo_init)) = 3
   \<and> fst (process_frame demo_ext [10, 52] (run_calls demo_ext demo_calls demo_init))
        \<noteq> Inl IndexError
   \<and> fst (process_frame demo_ext [10, 52] (run_calls demo_ext demo_calls demo_init))
        \<noteq> Inl KeyError"
proof -
  from reachable_lookups_safe [OF demo_initial refl, of demo_ext demo_calls]
  have "fst (process_frame demo_ext [10, 52] (run_calls demo_ext demo_calls demo_init))
          \<noteq> Inl IndexError
      \<and> fst (process_frame demo_ext [10, 52] (run_calls demo_ext demo_calls demo_init))
          \<noteq> Inl KeyError"
    by blast
  with demo_initial demo_calls_store show ?thesis by simp
qed

section \<open>The nearest enrolled identity\<close>






lemma demo_mixed_start:
  "start_registration demo_mixed_init = (Inr (Message ''Registration started.''), demo_mixed)"
  by (simp add: start_registration_def demo_mixed_init_def demo_init_def demo_mixed_def
        demo_mixed_students_def frombuffer_def bytes_word_def)



section \<open>The debounce counter\<close>

lemma sum_hits:
  "\<forall>f \<in> set fs. h f \<le> (1::nat) \<Longrightarrow> sum_list (map h fs) = length (filter (\<lambda>f. h f = 1) fs)"
proof (induction fs)
  case Nil
  show ?case by simp
next
  case (Cons f fs)
  then have "h f = 0 \<or> h f = 1" by (auto simp: le_Suc_eq)
  with Cons show ?case by auto
qed

text \<open>C4: in a session, with an encoder of fixed width and frames that each hold at
  most one detection matched to an enrolled identity, the identity's counter after any
  sequence of frames is the number of frames among them that hold such a detection; so
  it equals \<open>FRAME_THRESHOLD\<close> exactly when five qualifying frames have been delivered.
  A detection processed at any point of the session adds exactly 1 to the counter when
  it is matched to the identity and leaves it as it is otherwise, and no frame makes
  the counter smaller.\<close>

theorem debounce_counter_counts_frames:
  assumes "fixed_width x" and "s1 = snd (start_registration s0)"
    and "sid \<in> dom (student_frame_counts s1)"
    and "\<forall>f \<in> set frames. hits x s1 sid f \<le> 1"
  shows "student_frame_counts (run_frames x frames s1) sid
           = Some (int (length (filter (\<lambda>f. hits x s1 sid f = 1) frames)))
    \<and> (student_frame_counts (run_frames x frames s1) sid = Some FRAME_THRESHOLD
        \<longleftrightarrow> length (filter (\<lambda>f. hits x s1 sid f = 1) frames) = 5)
    \<and> (\<forall>det. student_frame_counts (snd (loop_body x det (run_frames x frames s1))) sid
           = map_option (\<lambda>c. c + (if matches x s1 sid det then 1 else 0))
               (student_frame_counts (run_frames x frames s1) sid))
    \<and> (\<forall>f. \<exists>c c'. student_frame_counts (run_frames x frames s1) sid = Some c
           \<and> student_frame_counts (snd (process_frame x f (run_frames x frames s1))) sid
               = Some c'
           \<and> c \<le> c')"
proof -
  let ?s = "run_frames x frames s1"
  let ?n = "length (filter (\<lambda>f. hits x s1 sid f = 1) frames)"
  have ok1: "lookup_ok s1" unfolding assms(2) by (rule start_registration_lookup_ok)
  then have ok: "lookup_ok ?s" by (rule run_frames_lookup_ok)
  from assms(3) obtain c0 where "student_frame_counts s1 sid = Some c0" by auto
  with start_registration_zero [of s0 sid c0] assms(2)
  have zero: "student_frame_counts s1 sid = Some 0" by simp
  from run_frames_counts [OF ok1 assms(1), of frames sid] zero sum_hits [OF assms(4)]
  have a: "student_frame_counts ?s sid = Some (int ?n)" by simp
  then have b: "student_frame_counts ?s sid = Some FRAME_THRESHOLD \<longleftrightarrow> ?n = 5"
    by (auto simp: FRAME_THRESHOLD_def)
  have same: "matches x ?s = matches x s1"
    by (intro matches_cong) (simp_all add: run_frames_fixed)
  have c: "student_frame_counts (snd (loop_body x det ?s)) sid
           = map_option (\<lambda>c. c + (if matches x s1 sid det then 1 else 0))
               (student_frame_counts ?s sid)" for det
    using loop_body_counts [OF ok, of x det sid] same
    by (simp add: option.map_ident)
  have d: "\<exists>c c'. student_frame_counts ?s sid = Some c
           \<and> student_frame_counts (snd (process_frame x f ?s)) sid = Some c' \<and> c \<le> c'" for f
    using process_frame_counts [OF ok assms(1), of f sid] a by simp
  from a b c d show ?thesis by blast
qed

lemma demo_hits:
  "hits demo_ext demo_loaded ''s1'' [10] = 1" "hits demo_ext demo_loaded ''s1'' [12] = 1"
  "hits demo_ext demo_loaded ''s1'' [0] = 0" "hits demo_ext demo_loaded ''s1'' [40] = 0"
  "hits demo_ext demo_loaded ''s1'' [9] = 1" "hits demo_ext demo_loaded ''s1'' [11] = 1"
  by (simp_all add: hits_def cv2_imdecode_def detections_def matches_def matched_def
        face_distance_def argmin_def demo_ext_def demo_loaded_def elem_sum_def TOLERANCE_def)

theorem debounce_counter_counts_frames_witness:
  "fixed_width demo_ext \<and> demo_loaded = snd (start_registration demo_init)
   \<and> ''s1'' \<in> dom (student_frame_counts demo_loaded)
   \<and> list_all (\<lambda>f. hits demo_ext demo_loaded ''s1'' f \<le> 1) demo_frames
   \<and> length (filter (\<lambda>f. hits demo_ext demo_loaded ''s1'' f = 1) demo_frames) = 5
   \<and> student_frame_counts (run_frames demo_ext demo_frames demo_loaded) ''s1''
       = Some FRAME_THRESHOLD"
proof -
  have h2: "demo_loaded = snd (start_registration demo_init)" by (simp add: demo_start)
  have h3: "''s1'' \<in> dom (student_frame_counts demo_loaded)" by (simp add: demo_loaded_def)
  have h4: "\<forall>f \<in> set demo_frames. hits demo_ext demo_loaded ''s1'' f \<le> 1"
    by (simp add: demo_frames_def demo_hits)
  have n: "length (filter (\<lambda>f. hits demo_ext demo_loaded ''s1'' f = 1) demo_frames) = 5"
    by (simp add: demo_frames_def demo_hits)
  from debounce_counter_counts_frames [OF demo_fixed_width h2 h3 h4] n
  have "student_frame_counts (run_frames demo_ext demo_frames demo_loaded) ''s1''
       = Some FRAME_THRESHOLD" by blast
  with demo_fixed_width h2 h3 h4 n show ?thesis by (simp add: list_all_iff)
qed

section \<open>The start of a session\<close>

lemma load_students_returns:
  "fst (load_students rows s) = Inr u \<Longrightarrow> \<forall>r \<in> set rows. length (encoding_binary r) mod 8 = 0"
proof (induction rows arbitrary: s)
  case Nil
  show ?case by simp
next
  case (Cons r rows)
  show ?case
  proof (cases "length (encoding_binary r) mod 8 = 0")
    case True
    with Cons.prems have "fst (load_students rows
        (s\<lparr>known_face_encodings := known_face_encodings s
              @ [map bytes_word (chunks8 (encoding_binary r))],
           known_face_metadata := known_face_metadata s
              @ [\<lparr>md_name = student_name r, md_id = student_id r\<rparr>],
           student_frame_counts := (student_frame_counts s)(student_id r \<mapsto> 0)\<rparr>)) = Inr u"
      by (simp add: frombuffer_def)
    from Cons.IH [OF this] True show ?thesis by simp
  next
    case False
    with Cons.prems show ?thesis by (simp add: frombuffer_def)
  qed
qed

lemma start_registration_returns:
  assumes "start_registration s0 = (Inr r, s1)"
  shows "\<forall>row \<in> set (students s0). length (encoding_binary row) mod 8 = 0"
proof -
  let ?c = "s0\<lparr>student_frame_counts := Map.empty, known_face_encodings := [],
               known_face_metadata := [], attendance := []\<rparr>"
  from assms have "fst (load_students (students s0) ?c) = Inr ()"
    by (auto simp: start_registration_def Let_def split: prod.splits sum.splits)
  from load_students_returns [OF this] show ?thesis .
qed

text \<open>A frame with a detection matched to an identity has the identity in the
  metadata list.\<close>

lemma hits_enrolled:
  assumes "0 < hits x s sid f"
  shows "sid \<in> md_id ` set (known_face_metadata s)"
proof -
  from assms obtain img det where "det \<in> set (detections x img)" "matches x s sid det"
    by (auto simp: hits_def filter_empty_conv split: sum.splits option.splits)
  then obtain m where "matched x s (snd det) = Some m" "md_id m = sid"
    by (auto simp: matches_def)
  then show ?thesis
    by (auto simp: matched_def split: sum.splits if_splits)
qed

text \<open>C5: when \<open>start_registration\<close> returns, the counter map holds exactly the ids of
  the students table, each with count 0; the encodings and the metadata are those of
  the table's rows, in order; the attendance table is empty and the students table is
  as it was. Whatever the counters and records were before, a frame with one
  detection matched to an identity then leaves that identity's counter at 1.\<close>

theorem start_registration_fresh:
  assumes "fixed_width x" and "start_registration s0 = (Inr r, s1)"
  shows "student_frame_counts s1
           = (\<lambda>sid. if sid \<in> set (map student_id (students s0)) then Some 0 else None)
    \<and> map Inr (known_face_encodings s1)
        = map (\<lambda>row. frombuffer (encoding_binary row)) (students s0)
    \<and> known_face_metadata s1
        = map (\<lambda>row. \<lparr>md_name = student_name row, md_id = student_id row\<rparr>) (students s0)
    \<and> attendance s1 = [] \<and> students s1 = students s0
    \<and> (\<forall>sid f. hits x s1 sid f = 1
          \<longrightarrow> student_frame_counts (snd (process_frame x f s1)) sid = Some 1)"
proof -
  let ?c = "s0\<lparr>student_frame_counts := Map.empty, known_face_encodings := [],
               known_face_metadata := [], attendance := []\<rparr>"
  from assms(2) have s1: "s1 = snd (start_registration s0)" by simp
  then have s1': "s1 = snd (load_students (students s0) ?c)"
    by (simp add: start_registration_state)
  from start_registration_returns [OF assms(2)]
  have good: "\<forall>row \<in> set (students s0). length (encoding_binary row) mod 8 = 0" .
  then have good': "\<forall>row \<in> set (students ?c). length (encoding_binary row) mod 8 = 0" by simp
  from load_students_loaded [OF good, of ?c] s1'
  have a: "student_frame_counts s1
           = (\<lambda>sid. if sid \<in> set (map student_id (students s0)) then Some 0 else None)"
    and b0: "known_face_encodings s1
        = map (\<lambda>row. map bytes_word (chunks8 (encoding_binary row))) (students s0)"
    and c: "known_face_metadata s1
        = map (\<lambda>row. \<lparr>md_name = student_name row, md_id = student_id row\<rparr>) (students s0)"
    by (simp_all add: fun_eq_iff)
  from b0 good have b: "map Inr (known_face_encodings s1)
        = map (\<lambda>row. frombuffer (encoding_binary row)) (students s0)"
    by (simp add: frombuffer_def)
  have d: "attendance s1 = []" "students s1 = students s0"
    unfolding s1 by (simp_all add: start_registration_fixed)
  have ok: "lookup_ok s1" unfolding s1 by (rule start_registration_lookup_ok)
  have e: "student_frame_counts (snd (process_frame x f s1)) sid = Some 1"
    if h: "hits x s1 sid f = 1" for sid f
  proof -
    from h hits_enrolled [of x s1 sid f] have "sid \<in> md_id ` set (known_face_metadata s1)"
      by simp
    with c have "sid \<in> set (map student_id (students s0))" by (auto simp: image_iff)
    with a have "student_frame_counts s1 sid = Some 0" by simp
    with process_frame_counts [OF ok assms(1), of f sid] h show ?thesis by simp
  qed
  from a b c d e show ?thesis by blast
qed

lemma demo_restart:
  "start_registration demo_committed = (Inr (Message ''Registration started.''), demo_loaded)"
  by (simp add: start_registration_def demo_committed_def demo_loaded_def demo_students_def
                frombuffer_def bytes_word_def)

theorem start_registration_fresh_witness:
  "fixed_width demo_ext
   \<and> start_registration demo_committed = (Inr (Message ''Registration started.''), demo_loaded)
   \<and> student_frame_counts demo_committed ''s1'' = Some 6
   \<and> records_of ''s1'' demo_committed
       = [\<lparr>reg_student_id = ''s1'', reg_student_name = ''Ann''\<rparr>]
   \<and> student_frame_counts demo_loaded ''s1'' = Some 0
   \<and> attendance demo_loaded = []
   \<and> hits demo_ext demo_loaded ''s1'' [10] = 1
   \<and> student_frame_counts (snd (process_frame demo_ext [10] demo_loaded)) ''s1'' = Some 1"
proof -
  from start_registration_fresh [OF demo_fixed_width demo_restart] demo_hits(1)
  have "student_frame_counts (snd (process_frame demo_ext [10] demo_loaded)) ''s1'' = Some 1"
    by blast
  moreover have "student_frame_counts demo_committed ''s1'' = Some 6"
    "records_of ''s1'' demo_committed = [\<lparr>reg_student_id = ''s1'', reg_student_name = ''Ann''\<rparr>]"
    "student_frame_counts demo_loaded ''s1'' = Some 0" "attendance demo_loaded = []"
    by (simp_all add: demo_committed_def demo_loaded_def records_of_def)
  ultimately show ?thesis using demo_fixed_width demo_restart demo_hits(1) by blast
qed

section \<open>A failed insert\<close>

text \<open>The loop body reads the attendance table nowhere but in the \<open>try\<close> block: two
  states with the same counters and the same store give the same outcome and the same
  counters, whatever their tables hold.\<close>

lemma loop_body_table_blind:
  assumes "student_frame_counts t = student_frame_counts s"
    and "known_face_encodings t = known_face_encodings s"
    and "known_face_metadata t = known_face_metadata s"
  shows "fst (loop_body x det t) = fst (loop_body x det s)
    \<and> student_frame_counts (snd (loop_body x det t))
        = student_frame_counts (snd (loop_body x det s))"
  using assms
  by (auto simp: loop_body_def Let_def split: prod.splits sum.splits option.splits)

lemma detect_loop_table_blind:
  "student_frame_counts t = student_frame_counts s \<Longrightarrow>
   known_face_encodings t = known_face_encodings s \<Longrightarrow>
   known_face_metadata t = known_face_metadata s \<Longrightarrow>
   fst (detect_loop x dets acc t) = fst (detect_loop x dets acc s)
   \<and> student_frame_counts (snd (detect_loop x dets acc t))
       = student_frame_counts (snd (detect_loop x dets acc s))"
proof (induction dets arbitrary: acc s t)
  case Nil
  then show ?case by simp
next
  case (Cons det rest)
  obtain r s' where ls: "loop_body x det s = (r, s')" by (cases "loop_body x det s")
  obtain r' t' where lt: "loop_body x det t = (r', t')" by (cases "loop_body x det t")
  from loop_body_table_blind [OF Cons.prems, of x det] ls lt
  have eq: "r' = r" "student_frame_counts t' = student_frame_counts s'" by simp_all
  from ls lt loop_body_fixed [of x det s] loop_body_fixed [of x det t] Cons.prems
  have fx: "known_face_encodings t' = known_face_encodings s'"
    "known_face_metadata t' = known_face_metadata s'" by simp_all
  show ?case
  proof (cases r)
    case (Inl e)
    with ls lt eq show ?thesis by simp
  next
    case (Inr entry)
    with ls lt eq Cons.IH [OF eq(2) fx, of "acc @ [entry]"] show ?thesis by simp
  qed
qed

lemma process_frame_table_blind:
  "fst (process_frame x contents (s\<lparr>attendance := tbl\<rparr>)) = fst (process_frame x contents s)
   \<and> student_frame_counts (snd (process_frame x contents (s\<lparr>attendance := tbl\<rparr>)))
       = student_frame_counts (snd (process_frame x contents s))"
proof (cases "cv2_imdecode x contents")
  case (Inl e)
  then show ?thesis by (simp add: process_frame_def)
next
  case (Inr r)
  show ?thesis
  proof (cases r)
    case None
    with Inr show ?thesis by (simp add: process_frame_def)
  next
    case (Some img)
    have "fst (detect_loop x (detections x img) [] (s\<lparr>attendance := tbl\<rparr>))
            = fst (detect_loop x (detections x img) [] s)
        \<and> student_frame_counts (snd (detect_loop x (detections x img) [] (s\<lparr>attendance := tbl\<rparr>)))
            = student_frame_counts (snd (detect_loop x (detections x img) [] s))"
      by (rule detect_loop_table_blind) simp_all
    with Inr Some show ?thesis
      by (auto simp: process_frame_def split: prod.splits sum.splits)
  qed
qed

text \<open>C6: when the insert of the record fails at the increment that makes a counter
  the threshold, the loop body still returns the entry of the detection, with the
  counter at the threshold and the attendance table as it was; the loop goes on with
  the remaining detections of the frame; and the outcome and the counters of
  \<open>process_frame\<close> do not depend on what the attendance table holds, so a failed insert
  shows neither as an exception nor in the response. The handler is
  \<open>except Exception\<close>: the \<open>try\<close> block does not look at which exception it was.\<close>

theorem persistence_failure_absorbed:
  assumes "matched x s face = Some m"
    and "student_frame_counts s (md_id m) = Some c" and "c + 1 = FRAME_THRESHOLD"
    and "insert_registration \<lparr>reg_student_id = md_id m, reg_student_name = md_name m\<rparr>
           (attendance s) = Inl e"
  shows "\<exists>entry s'.
           loop_body x (bx, face) s = (Inr entry, s')
           \<and> name entry = md_name m
           \<and> s' = s\<lparr>student_frame_counts := (student_frame_counts s)(md_id m \<mapsto> FRAME_THRESHOLD)\<rparr>
           \<and> attendance s' = attendance s
           \<and> (\<forall>rest acc. detect_loop x ((bx, face) # rest) acc s
                           = detect_loop x rest (acc @ [entry]) s')
           \<and> (\<forall>contents tbl.
                 fst (process_frame x contents (s\<lparr>attendance := tbl\<rparr>))
                   = fst (process_frame x contents s)
                 \<and> student_frame_counts (snd (process_frame x contents (s\<lparr>attendance := tbl\<rparr>)))
                   = student_frame_counts (snd (process_frame x contents s)))"
proof -
  from assms(1) obtain ds i where
    ds: "face_distance x (known_face_encodings s) face = Inr ds"
    and i: "argmin ds = Inr i" "below (ds ! i) TOLERANCE" "i < length (known_face_metadata s)"
    and mi: "m = known_face_metadata s ! i"
    by (auto simp: matched_def split: sum.splits if_splits)
  from i(1) have ne: "ds \<noteq> []" by (auto simp: argmin_Nil)
  let ?s' = "s\<lparr>student_frame_counts := (student_frame_counts s)(md_id m \<mapsto> FRAME_THRESHOLD)\<rparr>"
  let ?entry = "\<lparr>name = md_name m, distance = Some (py_round x (ds ! i) 2),
                 bounding_box = scale_box bx\<rparr>"
  from assms(4) have tc: "try_commit (md_name m) (md_id m) ?s' = ?s'"
    by (simp add: try_commit_def)
  from ds i ne mi assms(2,3) tc have lb: "loop_body x (bx, face) s = (Inr ?entry, ?s')"
    by (simp add: loop_body_def Let_def)
  then have "\<forall>rest acc. detect_loop x ((bx, face) # rest) acc s
                           = detect_loop x rest (acc @ [?entry]) ?s'"
    by simp
  with lb process_frame_table_blind [where x = x and s = s] show ?thesis
    by (intro exI [of _ ?entry] exI [of _ ?s']) simp
qed

lemma demo_conflict_frame:
  "process_frame demo_ext [10, 30] demo_conflict =
     (Inr (Detected [\<lparr>name = ''Ann'', distance = Some (Num 0), bounding_box = (0, 4, 4, 0)\<rparr>,
                     \<lparr>name = ''Bob'', distance = Some (Num 0), bounding_box = (0, 4, 4, 0)\<rparr>]),
      demo_conflict\<lparr>student_frame_counts := [''s1'' \<mapsto> 5, ''s2'' \<mapsto> 1]\<rparr>)"
  by (simp add: process_frame_def cv2_imdecode_def detections_def loop_body_def demo_ext_def
        demo_conflict_def demo_loaded_def face_distance_def argmin_def elem_sum_def
        TOLERANCE_def FRAME_THRESHOLD_def Let_def try_commit_def insert_registration_def
        fun_upd_twist)

theorem persistence_failure_absorbed_witness:
  "matched demo_ext demo_conflict [10] = Some \<lparr>md_name = ''Ann'', md_id = ''s1''\<rparr>
   \<and> student_frame_counts demo_conflict ''s1'' = Some 4 \<and> 4 + 1 = FRAME_THRESHOLD
   \<and> insert_registration \<lparr>reg_student_id = ''s1'', reg_student_name = ''Ann''\<rparr>
        (attendance demo_conflict) = Inl IntegrityError
   \<and> fst (loop_body demo_ext ((0, 1, 1, 0), [10]) demo_conflict)
       = Inr \<lparr>name = ''Ann'', distance = Some (Num 0), bounding_box = (0, 4, 4, 0)\<rparr>
   \<and> attendance (snd (loop_body demo_ext ((0, 1, 1, 0), [10]) demo_conflict))
       = attendance demo_conflict
   \<and> student_frame_counts (snd (loop_body demo_ext ((0, 1, 1, 0), [10]) demo_conflict)) ''s1''
       = Some FRAME_THRESHOLD
   \<and> process_frame demo_ext [10, 30] demo_conflict =
     (Inr (Detected [\<lparr>name = ''Ann'', distance = Some (Num 0), bounding_box = (0, 4, 4, 0)\<rparr>,
                     \<lparr>name = ''Bob'', distance = Some (Num 0), bounding_box = (0, 4, 4, 0)\<rparr>]),
      demo_conflict\<lparr>student_frame_counts := [''s1'' \<mapsto> 5, ''s2'' \<mapsto> 1]\<rparr>)"
proof -
  have h1: "matched demo_ext demo_conflict [10] = Some \<lparr>md_name = ''Ann'', md_id = ''s1''\<rparr>"
    by (simp add: matched_def face_distance_def argmin_def demo_ext_def demo_conflict_def
          demo_loaded_def elem_sum_def TOLERANCE_def)
  have h2: "student_frame_counts demo_conflict (md_id \<lparr>md_name = ''Ann'', md_id = ''s1''\<rparr>)
              = Some 4"
    by (simp add: demo_conflict_def)
  have h3: "4 + 1 = FRAME_THRESHOLD" by (simp add: FRAME_THRESHOLD_def)
  have h4: "insert_registration
              \<lparr>reg_student_id = md_id \<lparr>md_name = ''Ann'', md_id = ''s1''\<rparr>,
               reg_student_name = md_name \<lparr>md_name = ''Ann'', md_id = ''s1''\<rparr>\<rparr>
              (attendance demo_conflict) = Inl IntegrityError"
    by (simp add: insert_registration_def demo_conflict_def)
  from persistence_failure_absorbed [OF h1 h2 h3 h4, of "(0, 1, 1, 0)"]
  obtain entry s' where r:
    "loop_body demo_ext ((0, 1, 1, 0), [10]) demo_conflict = (Inr entry, s')"
    "name entry = ''Ann''"
    "s' = demo_conflict\<lparr>student_frame_counts :=
            (student_frame_counts demo_conflict)(''s1'' \<mapsto> FRAME_THRESHOLD)\<rparr>"
    "attendance s' = attendance demo_conflict"
    by auto
  have e: "fst (loop_body demo_ext ((0, 1, 1, 0), [10]) demo_conflict)
       = Inr \<lparr>name = ''Ann'', distance = Some (Num 0), bounding_box = (0, 4, 4, 0)\<rparr>"
    by (simp add: loop_body_def demo_ext_def demo_conflict_def demo_loaded_def
          face_distance_def argmin_def elem_sum_def TOLERANCE_def FRAME_THRESHOLD_def Let_def
          try_commit_def insert_registration_def)
  from r have "attendance (snd (loop_body demo_ext ((0, 1, 1, 0), [10]) demo_conflict))
       = attendance demo_conflict"
    "student_frame_counts (snd (loop_body demo_ext ((0, 1, 1, 0), [10]) demo_conflict)) ''s1''
       = Some FRAME_THRESHOLD"
    by simp_all
  with h1 h2 h3 h4 e demo_conflict_frame show ?thesis by simp
qed

section \<open>Stored embeddings of any length\<close>

lemma mult8_step:
  fixes n :: nat
  assumes "n mod 8 = 0" and "0 < n"
  shows "8 \<le> n" and "(n - 8) mod 8 = 0" and "n div 8 = Suc ((n - 8) div 8)"
proof -
  from assms obtain k where k: "n = 8 * k" by (auto simp: mod_eq_0_iff_dvd)
  with assms(2) obtain j where j: "k = Suc j" by (cases k) auto
  from k j show "8 \<le> n" by simp
  from k j show "(n - 8) mod 8 = 0" by simp
  from k j have "n - 8 = 8 * j" by simp
  with k j show "n div 8 = Suc ((n - 8) div 8)" by simp
qed


lemma chunks8_length:
  "length bs mod 8 = 0 \<Longrightarrow> length (chunks8 bs) = length bs div 8"
proof (induction bs rule: chunks8.induct)
  case 1
  show ?case by simp
next
  case (2 b bs)
  define n where "n = length (b # bs)"
  have pos: "0 < n" unfolding n_def by simp
  from "2.prems" have n: "n mod 8 = 0" unfolding n_def .
  have d: "length (drop 8 (b # bs)) = n - 8" unfolding n_def by (rule length_drop)
  from mult8_step(2) [OF n pos] have "length (drop 8 (b # bs)) mod 8 = 0"
    unfolding d .
  from "2.IH" [OF this] have ih: "length (chunks8 (drop 8 (b # bs))) = (n - 8) div 8"
    unfolding d .
  have "length (chunks8 (b # bs)) = Suc (length (chunks8 (drop 8 (b # bs))))"
    by (simp only: chunks8.simps list.size length_Cons)
  also have "\<dots> = n div 8" unfolding ih using mult8_step(3) [OF n pos] by (rule sym)
  finally show ?case unfolding n_def .
qed

text \<open>C7, as the code has it: the load compares no stored embedding with an expected
  width. When every blob's length is a multiple of 8, \<open>start_registration\<close> returns and
  has loaded every row, each as a vector of (byte length / 8) elements, none skipped.
  When a blob's length is not a multiple of 8, \<open>np.frombuffer\<close> raises at the first such
  row: the call ends with ValueError, the rows before it are loaded, it and the rows
  after it are not, and the attendance table is already cleared.\<close>

theorem start_registration_any_width:
  "((\<forall>row \<in> set (students s). length (encoding_binary row) mod 8 = 0) \<longrightarrow>
      fst (start_registration s) = Inr (Message ''Registration started.'')
      \<and> known_face_encodings (snd (start_registration s))
          = map (\<lambda>row. map bytes_word (chunks8 (encoding_binary row))) (students s)
      \<and> map length (known_face_encodings (snd (start_registration s)))
          = map (\<lambda>row. length (encoding_binary row) div 8) (students s)
      \<and> known_face_metadata (snd (start_registration s))
          = map (\<lambda>row. \<lparr>md_name = student_name row, md_id = student_id row\<rparr>) (students s))
   \<and> (\<forall>pre bad post.
        students s = pre @ bad # post
        \<and> (\<forall>row \<in> set pre. length (encoding_binary row) mod 8 = 0)
        \<and> length (encoding_binary bad) mod 8 \<noteq> 0 \<longrightarrow>
          fst (start_registration s) = Inl ValueError
          \<and> known_face_encodings (snd (start_registration s))
              = map (\<lambda>row. map bytes_word (chunks8 (encoding_binary row))) pre
          \<and> known_face_metadata (snd (start_registration s))
              = map (\<lambda>row. \<lparr>md_name = student_name row, md_id = student_id row\<rparr>) pre
          \<and> attendance (snd (start_registration s)) = [])"
proof (intro conjI impI allI)
  let ?c = "s\<lparr>student_frame_counts := Map.empty, known_face_encodings := [],
               known_face_metadata := [], attendance := []\<rparr>"
  {
    assume good: "\<forall>row \<in> set (students s). length (encoding_binary row) mod 8 = 0"
    from load_students_loaded [OF good, of ?c]
    have l: "fst (load_students (students s) ?c) = Inr ()"
      "known_face_encodings (snd (load_students (students s) ?c))
          = map (\<lambda>row. map bytes_word (chunks8 (encoding_binary row))) (students s)"
      "known_face_metadata (snd (load_students (students s) ?c))
          = map (\<lambda>row. \<lparr>md_name = student_name row, md_id = student_id row\<rparr>) (students s)"
      by simp_all
    from l(1) show "fst (start_registration s) = Inr (Message ''Registration started.'')"
      by (cases "load_students (students s) ?c")
         (simp add: start_registration_def Let_def)
    from l(2) show e: "known_face_encodings (snd (start_registration s))
          = map (\<lambda>row. map bytes_word (chunks8 (encoding_binary row))) (students s)"
      by (simp add: start_registration_state)
    from good show "map length (known_face_encodings (snd (start_registration s)))
          = map (\<lambda>row. length (encoding_binary row) div 8) (students s)"
      unfolding e by (simp add: chunks8_length)
    from l(3) show "known_face_metadata (snd (start_registration s))
          = map (\<lambda>row. \<lparr>md_name = student_name row, md_id = student_id row\<rparr>) (students s)"
      by (simp add: start_registration_state)
  }
  fix pre bad post
  assume h: "students s = pre @ bad # post
        \<and> (\<forall>row \<in> set pre. length (encoding_binary row) mod 8 = 0)
        \<and> length (encoding_binary bad) mod 8 \<noteq> 0"
  then have st: "students s = pre @ bad # post"
    and good: "\<forall>row \<in> set pre. length (encoding_binary row) mod 8 = 0"
    and bad: "length (encoding_binary bad) mod 8 \<noteq> 0" by simp_all
  from load_students_append [OF good, of "bad # post" ?c] load_students_bad [OF bad]
  have ld: "load_students (students s) ?c = (Inl ValueError, snd (load_students pre ?c))"
    by (simp add: st)
  from load_students_loaded [OF good, of ?c]
  have l: "known_face_encodings (snd (load_students pre ?c))
          = map (\<lambda>row. map bytes_word (chunks8 (encoding_binary row))) pre"
      "known_face_metadata (snd (load_students pre ?c))
          = map (\<lambda>row. \<lparr>md_name = student_name row, md_id = student_id row\<rparr>) pre"
    by simp_all
  from ld show "fst (start_registration s) = Inl ValueError"
    by (simp add: start_registration_def Let_def)
  from ld l(1) show "known_face_encodings (snd (start_registration s))
              = map (\<lambda>row. map bytes_word (chunks8 (encoding_binary row))) pre"
    by (simp add: start_registration_state)
  from ld l(2) show "known_face_metadata (snd (start_registration s))
              = map (\<lambda>row. \<lparr>md_name = student_name row, md_id = student_id row\<rparr>) pre"
    by (simp add: start_registration_state)
  show "attendance (snd (start_registration s)) = []"
    by (simp add: start_registration_fixed)
qed


lemma demo_bad_start:
  "start_registration demo_bad_init =
     (Inl ValueError,
      demo_bad_init\<lparr>attendance := [], student_frame_counts := [''s1'' \<mapsto> 0],
        known_face_encodings := [[10]],
        known_face_metadata := [\<lparr>md_name = ''Ann'', md_id = ''s1''\<rparr>]\<rparr>)"
  by (simp add: start_registration_def demo_bad_init_def demo_committed_def demo_loaded_def
        frombuffer_def bytes_word_def)

theorem start_registration_any_width_witness:
  "list_all (\<lambda>row. length (encoding_binary row) mod 8 = 0) (students demo_mixed_init)
   \<and> fst (start_registration demo_mixed_init) = Inr (Message ''Registration started.'')
   \<and> map length (known_face_encodings (snd (start_registration demo_mixed_init))) = [1, 2]
   \<and> students demo_bad_init =
        [\<lparr>student_id = ''s1'', student_name = ''Ann'',
          encoding_binary = [10, 0, 0, 0, 0, 0, 0, 0]\<rparr>]
        @ \<lparr>student_id = ''s4'', student_name = ''Dan'', encoding_binary = [1, 2, 3]\<rparr>
        # [\<lparr>student_id = ''s2'', student_name = ''Bob'',
            encoding_binary = [30, 0, 0, 0, 0, 0, 0, 0]\<rparr>]
   \<and> length [1, 2, 3 :: byte] mod 8 \<noteq> 0
   \<and> fst (start_registration demo_bad_init) = Inl ValueError
   \<and> known_face_encodings (snd (start_registration demo_bad_init)) = [[10]]
   \<and> known_face_metadata (snd (start_registration demo_bad_init))
       = [\<lparr>md_name = ''Ann'', md_id = ''s1''\<rparr>]
   \<and> attendance (snd (start_registration demo_bad_init)) = []"
proof -
  have g: "\<forall>row \<in> set (students demo_mixed_init). length (encoding_binary row) mod 8 = 0"
    by (simp add: demo_mixed_init_def demo_mixed_students_def)
  from start_registration_any_width [of demo_mixed_init] g
  have a: "fst (start_registration demo_mixed_init) = Inr (Message ''Registration started.'')"
    "map length (known_face_encodings (snd (start_registration demo_mixed_init)))
       = map (\<lambda>row. length (encoding_binary row) div 8) (students demo_mixed_init)"
    by blast+
  have a2: "map (\<lambda>row. length (encoding_binary row) div 8) (students demo_mixed_init) = [1, 2]"
    by (simp add: demo_mixed_init_def demo_mixed_students_def)
  have st: "students demo_bad_init =
        [\<lparr>student_id = ''s1'', student_name = ''Ann'',
          encoding_binary = [10, 0, 0, 0, 0, 0, 0, 0]\<rparr>]
        @ \<lparr>student_id = ''s4'', student_name = ''Dan'', encoding_binary = [1, 2, 3]\<rparr>
        # [\<lparr>student_id = ''s2'', student_name = ''Bob'',
            encoding_binary = [30, 0, 0, 0, 0, 0, 0, 0]\<rparr>]"
    by (simp add: demo_bad_init_def)
  have pre: "\<forall>row \<in> set [\<lparr>student_id = ''s1'', student_name = ''Ann'',
          encoding_binary = [10, 0, 0, 0, 0, 0, 0, 0]\<rparr>]. length (encoding_binary row) mod 8 = 0"
    by simp
  have bad: "length (encoding_binary
      \<lparr>student_id = ''s4'', student_name = ''Dan'', encoding_binary = [1, 2, 3]\<rparr>) mod 8 \<noteq> 0"
    by simp
  from start_registration_any_width [of demo_bad_init, THEN conjunct2, rule_format,
         OF conjI [OF st conjI [OF pre bad]]]
  have b: "fst (start_registration demo_bad_init) = Inl ValueError"
    "known_face_encodings (snd (start_registration demo_bad_init)) = [[10]]"
    "known_face_metadata (snd (start_registration demo_bad_init))
       = [\<lparr>md_name = ''Ann'', md_id = ''s1''\<rparr>]"
    "attendance (snd (start_registration demo_bad_init)) = []"
    by (simp_all add: bytes_word_def)
  from g a a2 st b show ?thesis by (simp add: list_all_iff)
qed

text \<open>A stored embedding on which the property of C7 does not hold. The encoder of the
  instance has vectors
  of one element, which \<open>add_student\<close> stores as 8 bytes. From a table whose blobs are
  8 and 16 bytes long, \<open>start_registration\<close> returns normally and has loaded both
  identities, the second as a vector of two elements: the embedding of the wrong
  width is neither skipped nor does it abort the load.\<close>

theorem start_registration_any_width_counterexample:
  "fixed_width demo_ext
   \<and> length (tobytes (hd (face_encodings demo_ext [30] None))) = 8
   \<and> map (\<lambda>row. length (encoding_binary row)) (students demo_mixed_init) = [8, 16]
   \<and> start_registration demo_mixed_init
       = (Inr (Message ''Registration started.''), demo_mixed)
   \<and> known_face_encodings demo_mixed = [[10], [30, 31]]
   \<and> known_face_metadata demo_mixed
       = [\<lparr>md_name = ''Ann'', md_id = ''s1''\<rparr>, \<lparr>md_name = ''Bob'', md_id = ''s2''\<rparr>]"
proof -
  have "length (tobytes (hd (face_encodings demo_ext [30] None))) = 8"
    by (simp add: demo_ext_def tobytes_def word_bytes_def)
  moreover have "map (\<lambda>row. length (encoding_binary row)) (students demo_mixed_init) = [8, 16]"
    by (simp add: demo_mixed_init_def demo_mixed_students_def)
  moreover have "known_face_encodings demo_mixed = [[10], [30, 31]]"
    "known_face_metadata demo_mixed
       = [\<lparr>md_name = ''Ann'', md_id = ''s1''\<rparr>, \<lparr>md_name = ''Bob'', md_id = ''s2''\<rparr>]"
    by (simp_all add: demo_mixed_def)
  ultimately show ?thesis using demo_fixed_width demo_mixed_start by blast
qed

end
